theory Spec2Isabelle
  imports Complex_Main
begin

section \<open>Python values\<close>

text \<open>
  The auto-rigger framework (\<^verbatim>\<open>gt/tools/auto_rigger/rig_framework.py\<close>) is dynamically
  typed: every setter receives an arbitrary Python object and inspects it with
  \<^verbatim>\<open>isinstance\<close> and truthiness tests. The values that reach the framework are modelled by
  one datatype. Dictionaries are association lists in insertion order with string keys (the
  persisted project is a JSON tree); \<open>PObject c\<close> is an instance of any other class \<open>c\<close>.
\<close>

type_synonym vector3 = "real \<times> real \<times> real"

record transform =
  position :: vector3
  rotation :: vector3
  scale :: vector3

text \<open>
  Modelled from the spec: the \<^verbatim>\<open>Curve\<close> class of \<^verbatim>\<open>gt.utils.curve_utils\<close> is not among
  the sources. The spec describes the curve of a proxy as a named, shape-describing value;
  \<open>curve_valid\<close> is the answer of its \<^verbatim>\<open>is_curve_valid()\<close>.
\<close>

record curve =
  curve_name :: string
  curve_valid :: bool

datatype pyval =
    PNone
  | PBool bool
  | PInt int
  | PFloat real
  | PStr string
  | PList "pyval list"
  | PTuple "pyval list"
  | PDict "(string \<times> pyval) list"
  | PTransform transform
  | PCurve curve
  | PObject string

datatype py_error = AttributeError | TypeError | HostError string

text \<open>Python truthiness: \<^verbatim>\<open>None\<close>, \<^verbatim>\<open>False\<close>, zero and empty containers are falsy; instances
  of classes that define neither \<^verbatim>\<open>__bool__\<close> nor \<^verbatim>\<open>__len__\<close> are truthy.\<close>

fun truthy :: "pyval \<Rightarrow> bool" where
  "truthy PNone = False"
| "truthy (PBool b) = b"
| "truthy (PInt i) = (i \<noteq> 0)"
| "truthy (PFloat x) = (x \<noteq> 0)"
| "truthy (PStr s) = (s \<noteq> [])"
| "truthy (PList xs) = (xs \<noteq> [])"
| "truthy (PTuple xs) = (xs \<noteq> [])"
| "truthy (PDict d) = (d \<noteq> [])"
| "truthy (PTransform t) = True"
| "truthy (PCurve c) = True"
| "truthy (PObject c) = True"

fun isinstance_str :: "pyval \<Rightarrow> bool" where
  "isinstance_str (PStr s) = True"
| "isinstance_str v = False"

fun isinstance_dict :: "pyval \<Rightarrow> bool" where
  "isinstance_dict (PDict d) = True"
| "isinstance_dict v = False"

fun isinstance_Transform :: "pyval \<Rightarrow> bool" where
  "isinstance_Transform (PTransform t) = True"
| "isinstance_Transform v = False"

fun isinstance_Curve :: "pyval \<Rightarrow> bool" where
  "isinstance_Curve (PCurve c) = True"
| "isinstance_Curve v = False"

text \<open>\<^verbatim>\<open>isinstance(v, (float, int))\<close>: \<^verbatim>\<open>bool\<close> is a subclass of \<^verbatim>\<open>int\<close>.\<close>

fun isinstance_number :: "pyval \<Rightarrow> bool" where
  "isinstance_number (PInt i) = True"
| "isinstance_number (PFloat x) = True"
| "isinstance_number (PBool b) = True"
| "isinstance_number v = False"

text \<open>\<^verbatim>\<open>len(v)\<close> raises \<^verbatim>\<open>TypeError\<close> on an object without a length.\<close>

fun py_len :: "pyval \<Rightarrow> py_error + nat" where
  "py_len (PStr s) = Inr (length s)"
| "py_len (PList xs) = Inr (length xs)"
| "py_len (PTuple xs) = Inr (length xs)"
| "py_len (PDict d) = Inr (length d)"
| "py_len v = Inl TypeError"

text \<open>\<^verbatim>\<open>d.get(k)\<close> and \<^verbatim>\<open>d[k] = v\<close> on a dictionary: a missing key reads as \<^verbatim>\<open>None\<close>; storing
  under a key already present replaces the value in place, a new key goes to the end.\<close>

definition dict_get :: "(string \<times> pyval) list \<Rightarrow> string \<Rightarrow> pyval" where
  "dict_get d k = (case map_of d k of None \<Rightarrow> PNone | Some v \<Rightarrow> v)"

fun dict_set :: "(string \<times> 'v) list \<Rightarrow> string \<Rightarrow> 'v \<Rightarrow> (string \<times> 'v) list" where
  "dict_set [] k v = [(k, v)]"
| "dict_set ((k', v') # d) k v = (if k' = k then (k, v) # d else (k', v') # dict_set d k v)"

section \<open>Collaborators outside the framework\<close>

text \<open>
  The framework imports the UUID validators and generator (\<^verbatim>\<open>gt.utils.uuid_utils\<close>), the
  curve library (\<^verbatim>\<open>gt.utils.curve_utils\<close>) and the constants of \<^verbatim>\<open>RiggerConstants\<close> and
  \<^verbatim>\<open>ColorConstants\<close>. They are parameters of the model: every function that uses one of
  them takes the record below. \<open>generate_uuid n\<close> is the string returned by the \<open>n\<close>-th
  call of the generator.
\<close>

record env =
  is_uuid_valid :: "string \<Rightarrow> bool"
  is_short_uuid_valid :: "string \<Rightarrow> bool"
  generate_uuid :: "nat \<Rightarrow> string"
  get_curve :: "string \<Rightarrow> curve"
  PROXY_META_PARENT :: string
  PROXY_META_TYPE :: string
  FOLLOWER :: pyval

subsection \<open>Transform\<close>

text \<open>
  Modelled from the spec: the \<^verbatim>\<open>Transform\<close> class of \<^verbatim>\<open>gt.utils.transform_utils\<close> is not
  among the sources. The spec describes it as three vectors (position, rotation, scale) of
  three floats each that serialize to and from a 3-item ordered structure
  \<^verbatim>\<open>[pos3, rot3, scale3]\<close>; the default is position and rotation zero and scale one (the
  comment in \<^verbatim>\<open>Proxy._initialize_transform\<close>). Input that is not such a structure is
  rejected and the transform keeps its value (the validation-rejection policy of the spec).
\<close>

definition Transform_init :: transform where
  "Transform_init = \<lparr>position = (0, 0, 0), rotation = (0, 0, 0), scale = (1, 1, 1)\<rparr>"

definition vector3_as_list :: "vector3 \<Rightarrow> pyval" where
  "vector3_as_list v = (case v of (x, y, z) \<Rightarrow> PList [PFloat x, PFloat y, PFloat z])"

definition get_transform_as_dict :: "transform \<Rightarrow> pyval" where
  "get_transform_as_dict t =
     PList [vector3_as_list (position t), vector3_as_list (rotation t), vector3_as_list (scale t)]"

fun number_of :: "pyval \<Rightarrow> real option" where
  "number_of (PFloat x) = Some x"
| "number_of (PInt i) = Some (real_of_int i)"
| "number_of v = None"

fun vector3_of :: "pyval \<Rightarrow> vector3 option" where
  "vector3_of (PList [a, b, c]) =
     (case (number_of a, number_of b, number_of c) of
        (Some x, Some y, Some z) \<Rightarrow> Some (x, y, z)
      | _ \<Rightarrow> None)"
| "vector3_of v = None"

fun set_transform_from_dict :: "transform \<Rightarrow> pyval \<Rightarrow> transform" where
  "set_transform_from_dict t (PList [p, r, s]) =
     (case (vector3_of p, vector3_of r, vector3_of s) of
        (Some p', Some r', Some s') \<Rightarrow> \<lparr>position = p', rotation = r', scale = s'\<rparr>
      | _ \<Rightarrow> t)"
| "set_transform_from_dict t v = t"

section \<open>Proxy\<close>

text \<open>
  The fields of \<^verbatim>\<open>class Proxy\<close>. \<open>transform\<close>, \<open>offset_transform\<close>, \<open>parent_uuid\<close> and
  \<open>metadata\<close> start as \<^verbatim>\<open>None\<close>; \<open>locator_scale\<close> holds whatever \<^verbatim>\<open>set_locator_scale\<close>
  stored, so it is an arbitrary value.
\<close>

record proxy =
  name :: string
  transform :: "transform option"
  offset_transform :: "transform option"
  curve :: curve
  uuid :: string
  parent_uuid :: "string option"
  locator_scale :: pyval
  attr_dict :: "(string \<times> pyval) list"
  metadata :: "(string \<times> pyval) list option"

text \<open>An argument that may be a \<^verbatim>\<open>Proxy\<close> instance or any other value.\<close>

datatype arg = Val pyval | ProxyObj proxy

text \<open>What a method call leaves behind: it returned \<^verbatim>\<open>self\<close>, it returned \<^verbatim>\<open>None\<close>, or it
  raised; the state of the object is given in each case.\<close>

datatype 'a result = Returned_self 'a | Returned_None 'a | Raised py_error 'a

fun state_of :: "'a result \<Rightarrow> 'a" where
  "state_of (Returned_self s) = s"
| "state_of (Returned_None s) = s"
| "state_of (Raised e s) = s"

fun has_raised :: "'a result \<Rightarrow> bool" where
  "has_raised (Raised e s) = True"
| "has_raised r = False"

definition initialize_transform :: "proxy \<Rightarrow> proxy" where
  "initialize_transform self =
     (if transform self = None then self\<lparr>transform := Some Transform_init\<rparr> else self)"

definition initialize_offset_transform :: "proxy \<Rightarrow> proxy" where
  "initialize_offset_transform self =
     (if offset_transform self = None then self\<lparr>offset_transform := Some Transform_init\<rparr>
      else self)"

subsection \<open>Setters\<close>

definition set_name :: "proxy \<Rightarrow> pyval \<Rightarrow> proxy" where
  "set_name self v =
     (case v of
        PStr s \<Rightarrow> self\<lparr>curve := (curve self)\<lparr>curve_name := s\<rparr>, name := s\<rparr>
      | _ \<Rightarrow> self)"

definition set_transform :: "proxy \<Rightarrow> pyval \<Rightarrow> proxy" where
  "set_transform self v =
     (if \<not> truthy v \<or> \<not> isinstance_Transform v then self
      else case v of PTransform t \<Rightarrow> self\<lparr>transform := Some t\<rparr> | _ \<Rightarrow> self)"

definition set_offset_transform :: "proxy \<Rightarrow> pyval \<Rightarrow> proxy" where
  "set_offset_transform self v =
     (if \<not> truthy v \<or> \<not> isinstance_Transform v then self
      else case v of PTransform t \<Rightarrow> self\<lparr>offset_transform := Some t\<rparr> | _ \<Rightarrow> self)"

definition set_curve :: "proxy \<Rightarrow> pyval \<Rightarrow> bool \<Rightarrow> proxy" where
  "set_curve self v inherit_curve_name =
     (if \<not> truthy v \<or> \<not> isinstance_Curve v then self
      else case v of
        PCurve c \<Rightarrow>
          if \<not> curve_valid c then self
          else if inherit_curve_name then (set_name self (PStr (curve_name c)))\<lparr>curve := c\<rparr>
          else self\<lparr>curve := c\<lparr>curve_name := name self\<rparr>\<rparr>
      | _ \<Rightarrow> self)"

text \<open>\<^verbatim>\<open>set_locator_scale\<close> tests the type and logs, but has no \<^verbatim>\<open>return\<close> in the branch:
  the assignment runs for every input.\<close>

definition set_locator_scale :: "proxy \<Rightarrow> pyval \<Rightarrow> proxy" where
  "set_locator_scale self v =
     (if \<not> isinstance_number v then self\<lparr>locator_scale := v\<rparr>
      else self\<lparr>locator_scale := v\<rparr>)"

definition set_attr_dict :: "proxy \<Rightarrow> pyval \<Rightarrow> proxy" where
  "set_attr_dict self v =
     (case v of PDict d \<Rightarrow> self\<lparr>attr_dict := d\<rparr> | _ \<Rightarrow> self)"

definition add_to_attr_dict :: "proxy \<Rightarrow> string \<Rightarrow> pyval \<Rightarrow> proxy" where
  "add_to_attr_dict self a v = self\<lparr>attr_dict := dict_set (attr_dict self) a v\<rparr>"

definition set_metadata_dict :: "proxy \<Rightarrow> pyval \<Rightarrow> proxy" where
  "set_metadata_dict self v =
     (case v of PDict d \<Rightarrow> self\<lparr>metadata := Some d\<rparr> | _ \<Rightarrow> self)"

text \<open>\<^verbatim>\<open>if not self.metadata: self.metadata = {}\<close>: \<^verbatim>\<open>None\<close> and the empty dictionary both
  become the empty dictionary.\<close>

definition initialized_metadata :: "proxy \<Rightarrow> (string \<times> pyval) list" where
  "initialized_metadata self = (case metadata self of None \<Rightarrow> [] | Some d \<Rightarrow> d)"

definition add_to_metadata :: "proxy \<Rightarrow> string \<Rightarrow> pyval \<Rightarrow> proxy" where
  "add_to_metadata self k v = self\<lparr>metadata := Some (dict_set (initialized_metadata self) k v)\<rparr>"

definition add_meta_parent :: "env \<Rightarrow> proxy \<Rightarrow> arg \<Rightarrow> proxy" where
  "add_meta_parent E self line_parent =
     (let self1 = self\<lparr>metadata := Some (initialized_metadata self)\<rparr>
      in case line_parent of
           Val (PStr s) \<Rightarrow>
             if is_uuid_valid E s
             then self1\<lparr>metadata := Some (dict_set (initialized_metadata self1) (PROXY_META_PARENT E) (PStr s))\<rparr>
             else self1
         | Val _ \<Rightarrow> self1
         | ProxyObj p \<Rightarrow>
             self1\<lparr>metadata := Some (dict_set (initialized_metadata self1) (PROXY_META_PARENT E) (PStr (uuid p)))\<rparr>)"

fun rgb_items :: "pyval \<Rightarrow> pyval list option" where
  "rgb_items (PList xs) = Some xs"
| "rgb_items (PTuple xs) = Some xs"
| "rgb_items v = None"

definition add_color :: "proxy \<Rightarrow> pyval \<Rightarrow> proxy" where
  "add_color self rgb_color =
     (case rgb_items rgb_color of
        Some xs \<Rightarrow>
          if length xs \<ge> 3 then
            if list_all isinstance_number xs then
              self\<lparr>attr_dict :=
                     dict_set (dict_set (attr_dict self) ''autoColor'' (PBool False))
                       ''colorDefault'' (PList [xs ! 0, xs ! 1, xs ! 2])\<rparr>
            else self
          else self
      | None \<Rightarrow> self)"

definition set_uuid :: "env \<Rightarrow> proxy \<Rightarrow> pyval \<Rightarrow> proxy" where
  "set_uuid E self v =
     (if \<not> truthy v \<or> \<not> isinstance_str v then self
      else case v of
        PStr s \<Rightarrow> if is_uuid_valid E s \<or> is_short_uuid_valid E s then self\<lparr>uuid := s\<rparr> else self
      | _ \<Rightarrow> self)"

definition set_parent_uuid :: "env \<Rightarrow> proxy \<Rightarrow> pyval \<Rightarrow> proxy" where
  "set_parent_uuid E self v =
     (if \<not> truthy v \<or> \<not> isinstance_str v then self
      else case v of
        PStr s \<Rightarrow>
          if is_uuid_valid E s \<or> is_short_uuid_valid E s then self\<lparr>parent_uuid := Some s\<rparr>
          else self
      | _ \<Rightarrow> self)"

definition set_parent_uuid_from_proxy :: "env \<Rightarrow> proxy \<Rightarrow> arg \<Rightarrow> proxy" where
  "set_parent_uuid_from_proxy E self parent_proxy =
     (case parent_proxy of
        Val v \<Rightarrow> self
      | ProxyObj p \<Rightarrow> set_parent_uuid E self (PStr (uuid p)))"

definition clear_parent_uuid :: "proxy \<Rightarrow> proxy" where
  "clear_parent_uuid self = self\<lparr>parent_uuid := None\<rparr>"

definition set_meta_type :: "env \<Rightarrow> proxy \<Rightarrow> pyval \<Rightarrow> proxy" where
  "set_meta_type E self v = add_to_metadata self (PROXY_META_TYPE E) v"

text \<open>
  Modelled from the spec: \<^verbatim>\<open>Transform.set_position\<close> and \<^verbatim>\<open>Vector3\<close> of
  \<^verbatim>\<open>gt.utils.transform_utils\<close> are not among the sources; the position of the transform
  becomes the given vector. \<^verbatim>\<open>Proxy.set_initial_position\<close> stores it in the transform and in
  the offset transform, initializing each first.
\<close>

definition set_position :: "proxy \<Rightarrow> vector3 \<Rightarrow> proxy" where
  "set_position self xyz =
     (let s = initialize_transform self
      in s\<lparr>transform := map_option (\<lambda>t. t\<lparr>position := xyz\<rparr>) (transform s)\<rparr>)"

definition set_offset_position :: "proxy \<Rightarrow> vector3 \<Rightarrow> proxy" where
  "set_offset_position self xyz =
     (let s = initialize_offset_transform self
      in s\<lparr>offset_transform := map_option (\<lambda>t. t\<lparr>position := xyz\<rparr>) (offset_transform s)\<rparr>)"

definition set_initial_position :: "proxy \<Rightarrow> vector3 \<Rightarrow> proxy" where
  "set_initial_position self xyz = set_offset_position (set_position self xyz) xyz"

subsection \<open>Construction\<close>

text \<open>The keyword arguments of \<^verbatim>\<open>Proxy.__init__\<close>; each defaults to \<^verbatim>\<open>None\<close>.\<close>

record proxy_args =
  arg_name :: pyval
  arg_transform :: pyval
  arg_offset_transform :: pyval
  arg_curve :: pyval
  arg_uuid :: pyval
  arg_parent_uuid :: pyval
  arg_locator_scale :: pyval
  arg_attr_dict :: pyval
  arg_metadata :: pyval

definition no_args :: proxy_args where
  "no_args = \<lparr>arg_name = PNone, arg_transform = PNone, arg_offset_transform = PNone,
     arg_curve = PNone, arg_uuid = PNone, arg_parent_uuid = PNone, arg_locator_scale = PNone,
     arg_attr_dict = PNone, arg_metadata = PNone\<rparr>"

text \<open>\<open>fresh\<close> is the string that \<^verbatim>\<open>generate_uuid(remove_dashes=True)\<close> returned to this
  constructor call.\<close>

definition Proxy_defaults :: "env \<Rightarrow> string \<Rightarrow> proxy" where
  "Proxy_defaults E fresh =
     \<lparr>name = ''proxy'', transform = None, offset_transform = None,
      curve = (get_curve E ''_proxy_joint'')\<lparr>curve_name := ''proxy''\<rparr>,
      uuid = fresh, parent_uuid = None, locator_scale = PInt 1, attr_dict = [],
      metadata = None\<rparr>"

definition Proxy_init :: "env \<Rightarrow> string \<Rightarrow> proxy_args \<Rightarrow> proxy" where
  "Proxy_init E fresh a =
     (let s0 = Proxy_defaults E fresh;
          s1 = (if truthy (arg_name a) then set_name s0 (arg_name a) else s0);
          s2 = (if truthy (arg_transform a) then set_transform s1 (arg_transform a) else s1);
          s3 = (if truthy (arg_offset_transform a)
                then set_offset_transform s2 (arg_offset_transform a) else s2);
          s4 = (if truthy (arg_curve a) then set_curve s3 (arg_curve a) False else s3);
          s5 = (if truthy (arg_uuid a) then set_uuid E s4 (arg_uuid a) else s4);
          s6 = (if truthy (arg_parent_uuid a) then set_parent_uuid E s5 (arg_parent_uuid a) else s5);
          s7 = (if truthy (arg_locator_scale a)
                then set_locator_scale s6 (arg_locator_scale a) else s6);
          s8 = (if truthy (arg_attr_dict a) then set_attr_dict s7 (arg_attr_dict a) else s7)
      in if truthy (arg_metadata a) then set_metadata_dict s8 (arg_metadata a) else s8)"

subsection \<open>Dictionary (de)serialization\<close>

text \<open>
  \<^verbatim>\<open>Proxy.read_data_from_dict\<close>. The guard rejects a truthy value that is not a dictionary;
  a falsy value that is not a dictionary passes the guard and \<^verbatim>\<open>proxy_dict.get\<close> raises.
  \<^verbatim>\<open>len(transform)\<close> raises on a truthy value without a length, after the name, the parent
  and the locator scale were stored (\<open>read_head\<close>). The offset block is read from the variable
  \<^verbatim>\<open>transform\<close>, as the source has it.
\<close>

definition read_tail :: "env \<Rightarrow> proxy \<Rightarrow> (string \<times> pyval) list \<Rightarrow> proxy" where
  "read_tail E self d =
     (let attributes = dict_get d ''attributes'';
          s1 = (if truthy attributes then set_attr_dict self attributes else self);
          metadata_v = dict_get d ''metadata'';
          s2 = (if truthy metadata_v then set_metadata_dict s1 metadata_v else s1);
          uuid_v = dict_get d ''uuid''
      in if truthy uuid_v then set_uuid E s2 uuid_v else s2)"

definition read_transform_block :: "proxy \<Rightarrow> pyval \<Rightarrow> py_error + proxy" where
  "read_transform_block self transform_v =
     (if truthy transform_v then
        (case py_len transform_v of
           Inl e \<Rightarrow> Inl e
         | Inr n \<Rightarrow>
             if n = 3 then
               (let s = initialize_transform self
                in Inr (s\<lparr>transform :=
                           map_option (\<lambda>t. set_transform_from_dict t transform_v) (transform s)\<rparr>))
             else Inr self)
      else Inr self)"

definition read_offset_block :: "proxy \<Rightarrow> pyval \<Rightarrow> pyval \<Rightarrow> py_error + proxy" where
  "read_offset_block self offset_v transform_v =
     (if truthy offset_v then
        (case py_len offset_v of
           Inl e \<Rightarrow> Inl e
         | Inr n \<Rightarrow>
             if n = 3 then
               (let s = initialize_offset_transform self
                in Inr (s\<lparr>offset_transform :=
                           map_option (\<lambda>t. set_transform_from_dict t transform_v)
                             (offset_transform s)\<rparr>))
             else Inr self)
      else Inr self)"

definition read_head :: "env \<Rightarrow> proxy \<Rightarrow> (string \<times> pyval) list \<Rightarrow> proxy" where
  "read_head E self d =
     (let name_v = dict_get d ''name'';
          s1 = (if truthy name_v then set_name self name_v else self);
          parent_v = dict_get d ''parent'';
          s2 = (if truthy parent_v then set_parent_uuid E s1 parent_v else s1);
          loc_scale = dict_get d ''locatorScale''
      in if truthy loc_scale then set_locator_scale s2 loc_scale else s2)"

definition read_data_from_dict :: "env \<Rightarrow> proxy \<Rightarrow> pyval \<Rightarrow> proxy result" where
  "read_data_from_dict E self proxy_dict =
     (if truthy proxy_dict \<and> \<not> isinstance_dict proxy_dict then Returned_None self
      else case proxy_dict of
        PDict d \<Rightarrow>
          (let s3 = read_head E self d;
               transform_v = dict_get d ''transform''
           in case read_transform_block s3 transform_v of
                Inl e \<Rightarrow> Raised e s3
              | Inr s4 \<Rightarrow>
                  (case read_offset_block s4 (dict_get d ''offsetTransform'') transform_v of
                     Inl e \<Rightarrow> Raised e s4
                   | Inr s5 \<Rightarrow> Returned_self (read_tail E s5 d)))
      | _ \<Rightarrow> Raised AttributeError self)"

definition get_proxy_as_dict :: "proxy \<Rightarrow> bool \<Rightarrow> bool \<Rightarrow> bool \<Rightarrow> pyval" where
  "get_proxy_as_dict self include_uuid include_transform_data include_offset_data =
     (let d0 = [(''name'', PStr (name self)),
                (''parent'', (case parent_uuid self of None \<Rightarrow> PNone | Some s \<Rightarrow> PStr s)),
                (''locatorScale'', locator_scale self)];
          d1 = (case transform self of
                  Some t \<Rightarrow> if include_transform_data
                            then dict_set d0 ''transform'' (get_transform_as_dict t) else d0
                | None \<Rightarrow> d0);
          d2 = (case offset_transform self of
                  Some t \<Rightarrow> if include_offset_data
                            then dict_set d1 ''offsetTransform'' (get_transform_as_dict t) else d1
                | None \<Rightarrow> d1);
          d3 = (if attr_dict self \<noteq> [] then dict_set d2 ''attributes'' (PDict (attr_dict self))
                else d2);
          d4 = (case metadata self of
                  Some m \<Rightarrow> if m \<noteq> [] then dict_set d3 ''metadata'' (PDict m) else d3
                | None \<Rightarrow> d3);
          d5 = (if include_uuid \<and> uuid self \<noteq> [] then dict_set d4 ''uuid'' (PStr (uuid self))
                else d4)
      in PDict d5)"

subsection \<open>Every mutating operation of a proxy\<close>

text \<open>The operations that change the fields of a proxy. The methods that act on the scene
  (\<^verbatim>\<open>build\<close>, \<^verbatim>\<open>apply_transforms\<close>, \<^verbatim>\<open>apply_attr_dict\<close>, \<^verbatim>\<open>read_data_from_scene\<close>) are
  not in the list; none of them assigns \<open>parent_uuid\<close>.\<close>

datatype proxy_op =
    Set_name pyval
  | Set_transform pyval
  | Set_offset_transform pyval
  | Set_curve pyval bool
  | Set_locator_scale pyval
  | Set_attr_dict pyval
  | Add_to_attr_dict string pyval
  | Set_metadata_dict pyval
  | Add_to_metadata string pyval
  | Add_meta_parent arg
  | Add_color pyval
  | Set_uuid pyval
  | Set_parent_uuid pyval
  | Set_parent_uuid_from_proxy arg
  | Clear_parent_uuid
  | Set_meta_type pyval
  | Set_position vector3
  | Set_offset_position vector3
  | Set_initial_position vector3
  | Read_data_from_dict pyval

fun apply_proxy_op :: "env \<Rightarrow> proxy \<Rightarrow> proxy_op \<Rightarrow> proxy" where
  "apply_proxy_op E p (Set_name v) = set_name p v"
| "apply_proxy_op E p (Set_transform v) = set_transform p v"
| "apply_proxy_op E p (Set_offset_transform v) = set_offset_transform p v"
| "apply_proxy_op E p (Set_curve v b) = set_curve p v b"
| "apply_proxy_op E p (Set_locator_scale v) = set_locator_scale p v"
| "apply_proxy_op E p (Set_attr_dict v) = set_attr_dict p v"
| "apply_proxy_op E p (Add_to_attr_dict k v) = add_to_attr_dict p k v"
| "apply_proxy_op E p (Set_metadata_dict v) = set_metadata_dict p v"
| "apply_proxy_op E p (Add_to_metadata k v) = add_to_metadata p k v"
| "apply_proxy_op E p (Add_meta_parent a) = add_meta_parent E p a"
| "apply_proxy_op E p (Add_color v) = add_color p v"
| "apply_proxy_op E p (Set_uuid v) = set_uuid E p v"
| "apply_proxy_op E p (Set_parent_uuid v) = set_parent_uuid E p v"
| "apply_proxy_op E p (Set_parent_uuid_from_proxy a) = set_parent_uuid_from_proxy E p a"
| "apply_proxy_op E p Clear_parent_uuid = clear_parent_uuid p"
| "apply_proxy_op E p (Set_meta_type v) = set_meta_type E p v"
| "apply_proxy_op E p (Set_position xyz) = set_position p xyz"
| "apply_proxy_op E p (Set_offset_position xyz) = set_offset_position p xyz"
| "apply_proxy_op E p (Set_initial_position xyz) = set_initial_position p xyz"
| "apply_proxy_op E p (Read_data_from_dict v) = state_of (read_data_from_dict E p v)"

text \<open>The invariant of the data model: \<open>parent_uuid\<close> is \<^verbatim>\<open>None\<close> or a string that one of the two
  format validators accepts.\<close>

definition parent_uuid_ok :: "env \<Rightarrow> proxy \<Rightarrow> bool" where
  "parent_uuid_ok E p =
     (case parent_uuid p of None \<Rightarrow> True
      | Some s \<Rightarrow> is_uuid_valid E s \<or> is_short_uuid_valid E s)"

text \<open>A value that \<^verbatim>\<open>set_parent_uuid\<close> accepts: a string that passes one of the validators.\<close>

definition accepted_uuid :: "env \<Rightarrow> pyval \<Rightarrow> bool" where
  "accepted_uuid E v =
     (case v of
        PStr s \<Rightarrow> s \<noteq> [] \<and> (is_uuid_valid E s \<or> is_short_uuid_valid E s)
      | _ \<Rightarrow> False)"

text \<open>The value that \<^verbatim>\<open>proxy_dict.get('parent')\<close> yields when the call gets that far.\<close>

definition parent_entry :: "pyval \<Rightarrow> pyval" where
  "parent_entry v = (case v of PDict d \<Rightarrow> dict_get d ''parent'' | _ \<Rightarrow> PNone)"

section \<open>Module\<close>

text \<open>
  The fields of \<^verbatim>\<open>class ModuleGeneric\<close>, with the name of the object's class
  (\<^verbatim>\<open>self.__class__.__name__\<close>), which the project uses as the key of the module.
\<close>

record rig_module =
  module_class :: string
  "module_name" :: "string option"
  module_prefix :: "string option"
  module_proxies :: "proxy list"
  module_parent_uuid :: "string option"
  module_metadata :: "(string \<times> pyval) list option"
  module_active :: bool

text \<open>\<^verbatim>\<open>ModuleGeneric()\<close> as \<^verbatim>\<open>RigProject.read_modules_from_dict\<close> calls it: every keyword
  argument is \<^verbatim>\<open>None\<close> and no setter runs.\<close>

definition ModuleGeneric_init :: rig_module where
  "ModuleGeneric_init =
     \<lparr>module_class = ''ModuleGeneric'', module_name = None, module_prefix = None,
      module_proxies = [], module_parent_uuid = None, module_metadata = None,
      module_active = True\<rparr>"

definition ModuleGeneric_set_name :: "rig_module \<Rightarrow> pyval \<Rightarrow> rig_module" where
  "ModuleGeneric_set_name self v =
     (case v of PStr s \<Rightarrow> self\<lparr>module_name := Some s\<rparr> | _ \<Rightarrow> self)"

definition ModuleGeneric_set_prefix :: "rig_module \<Rightarrow> pyval \<Rightarrow> rig_module" where
  "ModuleGeneric_set_prefix self v =
     (if \<not> truthy v \<or> \<not> isinstance_str v then self
      else case v of PStr s \<Rightarrow> self\<lparr>module_prefix := Some s\<rparr> | _ \<Rightarrow> self)"

definition ModuleGeneric_set_metadata_dict :: "rig_module \<Rightarrow> pyval \<Rightarrow> rig_module" where
  "ModuleGeneric_set_metadata_dict self v =
     (case v of PDict d \<Rightarrow> self\<lparr>module_metadata := Some d\<rparr> | _ \<Rightarrow> self)"

definition ModuleGeneric_set_active_state :: "rig_module \<Rightarrow> pyval \<Rightarrow> rig_module" where
  "ModuleGeneric_set_active_state self v =
     (case v of PBool b \<Rightarrow> self\<lparr>module_active := b\<rparr> | _ \<Rightarrow> self)"

definition ModuleGeneric_set_parent_uuid :: "env \<Rightarrow> rig_module \<Rightarrow> pyval \<Rightarrow> rig_module" where
  "ModuleGeneric_set_parent_uuid E self v =
     (if \<not> truthy v \<or> \<not> isinstance_str v then self
      else case v of
        PStr s \<Rightarrow>
          if is_uuid_valid E s \<or> is_short_uuid_valid E s then self\<lparr>module_parent_uuid := Some s\<rparr>
          else self
      | _ \<Rightarrow> self)"

text \<open>
  \<^verbatim>\<open>ModuleGeneric.read_proxies_from_dict\<close>. Each entry constructs a proxy, which draws the next
  identifier from the generator (the counter \<open>n\<close>), sets the key as its identifier and reads
  the description. The value the reader returns is not used; an exception it raises leaves the
  loop with the proxies appended so far.
\<close>

fun read_proxies_loop ::
  "env \<Rightarrow> rig_module \<Rightarrow> nat \<Rightarrow> (string \<times> pyval) list \<Rightarrow> rig_module result \<times> nat" where
  "read_proxies_loop E self n [] = (Returned_None self, n)"
| "read_proxies_loop E self n ((uuid_key, description) # rest) =
     (let p0 = Proxy_init E (generate_uuid E n) no_args;
          p1 = set_uuid E p0 (PStr uuid_key)
      in case read_data_from_dict E p1 description of
           Raised e p2 \<Rightarrow> (Raised e self, Suc n)
         | Returned_self p2 \<Rightarrow>
             read_proxies_loop E (self\<lparr>module_proxies := module_proxies self @ [p2]\<rparr>) (Suc n) rest
         | Returned_None p2 \<Rightarrow>
             read_proxies_loop E (self\<lparr>module_proxies := module_proxies self @ [p2]\<rparr>) (Suc n) rest)"

definition read_proxies_from_dict ::
  "env \<Rightarrow> rig_module \<Rightarrow> nat \<Rightarrow> pyval \<Rightarrow> rig_module result \<times> nat" where
  "read_proxies_from_dict E self n proxy_dict =
     (if \<not> truthy proxy_dict \<or> \<not> isinstance_dict proxy_dict then (Returned_None self, n)
      else case proxy_dict of
        PDict d \<Rightarrow> read_proxies_loop E (self\<lparr>module_proxies := []\<rparr>) n d
      | _ \<Rightarrow> (Returned_None self, n))"

definition module_read_head :: "env \<Rightarrow> rig_module \<Rightarrow> (string \<times> pyval) list \<Rightarrow> rig_module" where
  "module_read_head E self d =
     (let name_v = dict_get d ''name'';
          s1 = (if truthy name_v then ModuleGeneric_set_name self name_v else self);
          prefix_v = dict_get d ''prefix'';
          s2 = (if truthy prefix_v then ModuleGeneric_set_prefix s1 prefix_v else s1);
          parent_v = dict_get d ''parent''
      in if truthy parent_v then ModuleGeneric_set_parent_uuid E s2 parent_v else s2)"

definition module_read_tail :: "rig_module \<Rightarrow> (string \<times> pyval) list \<Rightarrow> rig_module" where
  "module_read_tail self d =
     (let is_active = dict_get d ''active'';
          s1 = (case is_active of PBool b \<Rightarrow> ModuleGeneric_set_active_state self is_active
                | _ \<Rightarrow> self);
          metadata_v = dict_get d ''metadata''
      in if truthy metadata_v then ModuleGeneric_set_metadata_dict s1 metadata_v else s1)"

definition ModuleGeneric_read_data_from_dict ::
  "env \<Rightarrow> rig_module \<Rightarrow> nat \<Rightarrow> pyval \<Rightarrow> rig_module result \<times> nat" where
  "ModuleGeneric_read_data_from_dict E self n module_dict =
     (if truthy module_dict \<and> \<not> isinstance_dict module_dict then (Returned_None self, n)
      else case module_dict of
        PDict d \<Rightarrow>
          (let s3 = module_read_head E self d;
               proxies_v = dict_get d ''proxies''
           in if truthy proxies_v \<and> isinstance_dict proxies_v then
                (case read_proxies_from_dict E s3 n proxies_v of
                   (Raised e s4, n') \<Rightarrow> (Raised e s4, n')
                 | (Returned_self s4, n') \<Rightarrow> (Returned_self (module_read_tail s4 d), n')
                 | (Returned_None s4, n') \<Rightarrow> (Returned_self (module_read_tail s4 d), n'))
              else (Returned_self (module_read_tail s3 d), n))
      | _ \<Rightarrow> (Raised AttributeError self, n))"

text \<open>\<^verbatim>\<open>module_proxies[proxy.get_uuid()] = proxy.get_proxy_as_dict(...)\<close> for each proxy in
  order.\<close>

definition module_proxies_dict :: "proxy list \<Rightarrow> bool \<Rightarrow> (string \<times> pyval) list" where
  "module_proxies_dict ps include_offset_data =
     foldl (\<lambda>d p. dict_set d (uuid p) (get_proxy_as_dict p False True include_offset_data)) [] ps"

definition ModuleGeneric_get_module_as_dict :: "rig_module \<Rightarrow> bool \<Rightarrow> bool \<Rightarrow> pyval" where
  "ModuleGeneric_get_module_as_dict self include_module_name include_offset_data =
     (let d0 = (case module_name self of
                  Some s \<Rightarrow> if s \<noteq> [] then [(''name'', PStr s)] else []
                | None \<Rightarrow> []);
          d1 = dict_set d0 ''active'' (PBool (module_active self));
          d2 = (case module_prefix self of
                  Some s \<Rightarrow> if s \<noteq> [] then dict_set d1 ''prefix'' (PStr s) else d1
                | None \<Rightarrow> d1);
          d3 = (case module_parent_uuid self of
                  Some s \<Rightarrow> if s \<noteq> [] then dict_set d2 ''parent'' (PStr s) else d2
                | None \<Rightarrow> d2);
          d4 = (case module_metadata self of
                  Some m \<Rightarrow> if m \<noteq> [] then dict_set d3 ''metadata'' (PDict m) else d3
                | None \<Rightarrow> d3);
          d5 = dict_set d4 ''proxies''
                 (PDict (module_proxies_dict (module_proxies self) include_offset_data))
      in PDict (if include_module_name then dict_set d5 ''module'' (PStr (module_class self))
                else d5))"

text \<open>
  Modelled from the spec: \<^verbatim>\<open>remove_prefix\<close> of \<^verbatim>\<open>gt.utils.string_utils\<close> is not among the
  sources. The spec says that the conventional prefix of the class name is stripped when the
  project is written and added again when it is read.
\<close>

definition startswith :: "string \<Rightarrow> string \<Rightarrow> bool" where
  "startswith s pre = (take (length pre) s = pre)"

definition remove_prefix :: "string \<Rightarrow> string \<Rightarrow> string" where
  "remove_prefix input_string pre =
     (if startswith input_string pre then drop (length pre) input_string else input_string)"

definition get_module_class_name :: "rig_module \<Rightarrow> bool \<Rightarrow> string" where
  "get_module_class_name self remove_module_prefix =
     (if remove_module_prefix then remove_prefix (module_class self) ''Module''
      else module_class self)"

section \<open>Project\<close>

text \<open>
  The registry \<^verbatim>\<open>RigModules\<close> (\<^verbatim>\<open>gt.tools.auto_rigger.rig_modules\<close>) and the module classes
  it lists are not among the sources, apart from \<^verbatim>\<open>ModuleGeneric\<close> and the serializer of
  \<^verbatim>\<open>ModuleSpine\<close>. They are parameters: \<open>available_modules\<close> maps a registered class name
  to its constructor (which may draw identifiers from the generator), and the two method
  tables give \<^verbatim>\<open>read_data_from_dict\<close> and \<^verbatim>\<open>get_module_as_dict\<close> of every other class.
\<close>

record registry =
  available_modules :: "string \<Rightarrow> (nat \<Rightarrow> rig_module \<times> nat) option"
  class_read_data_from_dict ::
    "string \<Rightarrow> rig_module \<Rightarrow> nat \<Rightarrow> pyval \<Rightarrow> rig_module result \<times> nat"
  class_get_module_as_dict :: "string \<Rightarrow> rig_module \<Rightarrow> pyval"

text \<open>Method dispatch on the class of the module object.\<close>

definition module_read_data_from_dict ::
  "registry \<Rightarrow> env \<Rightarrow> rig_module \<Rightarrow> nat \<Rightarrow> pyval \<Rightarrow> rig_module result \<times> nat" where
  "module_read_data_from_dict R E m n v =
     (if module_class m = ''ModuleGeneric'' then ModuleGeneric_read_data_from_dict E m n v
      else class_read_data_from_dict R (module_class m) m n v)"

definition module_get_module_as_dict :: "registry \<Rightarrow> rig_module \<Rightarrow> pyval" where
  "module_get_module_as_dict R m =
     (if module_class m = ''ModuleGeneric'' then ModuleGeneric_get_module_as_dict m False True
      else if module_class m = ''ModuleSpine'' then ModuleGeneric_get_module_as_dict m False False
      else class_get_module_as_dict R (module_class m) m)"

record rig_project =
  project_name :: string
  project_prefix :: "string option"
  project_modules :: "rig_module list"
  project_metadata :: "(string \<times> pyval) list option"

text \<open>\<^verbatim>\<open>RigProject()\<close> with its default arguments.\<close>

definition RigProject_init :: rig_project where
  "RigProject_init =
     \<lparr>project_name = ''Untitled'', project_prefix = None, project_modules = [],
      project_metadata = None\<rparr>"

definition RigProject_set_name :: "rig_project \<Rightarrow> pyval \<Rightarrow> rig_project" where
  "RigProject_set_name self v =
     (case v of PStr s \<Rightarrow> self\<lparr>project_name := s\<rparr> | _ \<Rightarrow> self)"

definition RigProject_set_prefix :: "rig_project \<Rightarrow> pyval \<Rightarrow> rig_project" where
  "RigProject_set_prefix self v =
     (if \<not> truthy v \<or> \<not> isinstance_str v then self
      else case v of PStr s \<Rightarrow> self\<lparr>project_prefix := Some s\<rparr> | _ \<Rightarrow> self)"

definition RigProject_set_metadata_dict :: "rig_project \<Rightarrow> pyval \<Rightarrow> rig_project" where
  "RigProject_set_metadata_dict self v =
     (case v of PDict d \<Rightarrow> self\<lparr>project_metadata := Some d\<rparr> | _ \<Rightarrow> self)"

text \<open>The body of the loop of \<^verbatim>\<open>RigProject.read_modules_from_dict\<close>: the module built for one
  entry of the dictionary.\<close>

definition registered_class_name :: "string \<Rightarrow> string" where
  "registered_class_name class_name =
     (if \<not> startswith class_name ''Module'' then ''Module'' @ class_name else class_name)"

definition read_module_entry ::
  "registry \<Rightarrow> env \<Rightarrow> nat \<Rightarrow> string \<times> pyval \<Rightarrow> rig_module result \<times> nat" where
  "read_module_entry R E n entry =
     (case entry of (class_name, description) \<Rightarrow>
        (case available_modules R (registered_class_name class_name) of
           Some constructor \<Rightarrow>
             (case constructor n of (m, n') \<Rightarrow> module_read_data_from_dict R E m n' description)
         | None \<Rightarrow> module_read_data_from_dict R E ModuleGeneric_init n description))"

fun read_modules_loop ::
  "registry \<Rightarrow> env \<Rightarrow> rig_project \<Rightarrow> nat \<Rightarrow> (string \<times> pyval) list \<Rightarrow> rig_project result \<times> nat"
  where
  "read_modules_loop R E self n [] = (Returned_None self, n)"
| "read_modules_loop R E self n (entry # rest) =
     (case read_module_entry R E n entry of
        (Raised e m, n') \<Rightarrow> (Raised e self, n')
      | (Returned_self m, n') \<Rightarrow>
          read_modules_loop R E (self\<lparr>project_modules := project_modules self @ [m]\<rparr>) n' rest
      | (Returned_None m, n') \<Rightarrow>
          read_modules_loop R E (self\<lparr>project_modules := project_modules self @ [m]\<rparr>) n' rest)"

definition read_modules_from_dict ::
  "registry \<Rightarrow> env \<Rightarrow> rig_project \<Rightarrow> nat \<Rightarrow> pyval \<Rightarrow> rig_project result \<times> nat" where
  "read_modules_from_dict R E self n modules_dict =
     (if \<not> truthy modules_dict \<or> \<not> isinstance_dict modules_dict then (Returned_None self, n)
      else case modules_dict of
        PDict d \<Rightarrow> read_modules_loop R E (self\<lparr>project_modules := []\<rparr>) n d
      | _ \<Rightarrow> (Returned_None self, n))"

definition project_read_head :: "rig_project \<Rightarrow> (string \<times> pyval) list \<Rightarrow> rig_project" where
  "project_read_head self d =
     (let name_v = dict_get d ''name'';
          s1 = (if truthy name_v then RigProject_set_name self name_v else self);
          prefix_v = dict_get d ''prefix''
      in if truthy prefix_v then RigProject_set_prefix s1 prefix_v else s1)"

definition project_read_tail :: "rig_project \<Rightarrow> (string \<times> pyval) list \<Rightarrow> rig_project" where
  "project_read_tail self d =
     (let metadata_v = dict_get d ''metadata''
      in if truthy metadata_v then RigProject_set_metadata_dict self metadata_v else self)"

text \<open>\<^verbatim>\<open>RigProject.read_data_from_dict\<close>: the two assignments that clear the project come
  before the guard.\<close>

definition RigProject_read_data_from_dict ::
  "registry \<Rightarrow> env \<Rightarrow> rig_project \<Rightarrow> nat \<Rightarrow> pyval \<Rightarrow> rig_project result \<times> nat" where
  "RigProject_read_data_from_dict R E self n module_dict =
     (let s0 = self\<lparr>project_modules := [], project_metadata := None\<rparr>
      in if truthy module_dict \<and> \<not> isinstance_dict module_dict then (Returned_None s0, n)
         else case module_dict of
           PDict d \<Rightarrow>
             (let s2 = project_read_head s0 d;
                  modules_v = dict_get d ''modules''
              in if truthy modules_v \<and> isinstance_dict modules_v then
                   (case read_modules_from_dict R E s2 n modules_v of
                      (Raised e s3, n') \<Rightarrow> (Raised e s3, n')
                    | (Returned_self s3, n') \<Rightarrow> (Returned_self (project_read_tail s3 d), n')
                    | (Returned_None s3, n') \<Rightarrow> (Returned_self (project_read_tail s3 d), n'))
                 else (Returned_self (project_read_tail s2 d), n))
         | _ \<Rightarrow> (Raised AttributeError s0, n))"

definition project_modules_dict :: "registry \<Rightarrow> rig_module list \<Rightarrow> (string \<times> pyval) list" where
  "project_modules_dict R ms =
     foldl (\<lambda>d m. dict_set d (get_module_class_name m True) (module_get_module_as_dict R m)) [] ms"

definition get_project_as_dict :: "registry \<Rightarrow> rig_project \<Rightarrow> pyval" where
  "get_project_as_dict R self =
     (let project_modules_d = project_modules_dict R (project_modules self);
          d0 = (if project_name self \<noteq> [] then [(''name'', PStr (project_name self))] else []);
          d1 = (case project_prefix self of
                  Some s \<Rightarrow> if s \<noteq> [] then dict_set d0 ''prefix'' (PStr s) else d0
                | None \<Rightarrow> d0);
          d2 = dict_set d1 ''modules'' (PDict project_modules_d)
      in PDict (case project_metadata self of
                  Some m \<Rightarrow> if m \<noteq> [] then dict_set d2 ''metadata'' (PDict m) else d2
                | None \<Rightarrow> d2))"

section \<open>Spine module\<close>

text \<open>
  \<^verbatim>\<open>class ModuleSpine(ModuleGeneric)\<close> of \<^verbatim>\<open>rig_module_spine.py\<close>: the inherited fields, the
  two fixed proxies and the list of in-between proxies.
\<close>

record module_spine = rig_module +
  hip :: proxy
  chest :: proxy
  spines :: "proxy list"

text \<open>\<^verbatim>\<open>str(n)\<close> for a natural number and \<^verbatim>\<open>s.zfill(width)\<close> for a string without sign.\<close>

function str_nat :: "nat \<Rightarrow> string" where
  "str_nat n =
     (if n < 10 then [''0123456789'' ! n]
      else str_nat (n div 10) @ [''0123456789'' ! (n mod 10)])"
  by pat_completeness auto
termination
  by (relation "measure id") auto

declare str_nat.simps [simp del]

definition zfill :: "string \<Rightarrow> nat \<Rightarrow> string" where
  "zfill s width = replicate (width - length s) CHR ''0'' @ s"

text \<open>\<^verbatim>\<open>xs[:k]\<close>: a negative \<open>k\<close> counts from the end.\<close>

definition slice_to :: "'a list \<Rightarrow> int \<Rightarrow> 'a list" where
  "slice_to xs k = (if 0 \<le> k then take (nat k) xs else take (nat (int (length xs) + k)) xs)"

text \<open>The body of the loop \<^verbatim>\<open>for num in range(spines_len, spine_num)\<close>: the proxy created
  for index \<open>num\<close> with the identifier \<open>fresh\<close> and the parent \<open>parent\<close>.\<close>

definition new_spine :: "env \<Rightarrow> string \<Rightarrow> string \<Rightarrow> nat \<Rightarrow> proxy" where
  "new_spine E fresh parent num =
     (let spine_name = ''spine'' @ zfill (str_nat (num + 1)) 2;
          s0 = Proxy_init E fresh (no_args\<lparr>arg_name := PStr spine_name\<rparr>);
          s1 = set_locator_scale s0 (PInt 1);
          s2 = add_color s1 (FOLLOWER E);
          s3 = set_meta_type E s2 (PStr spine_name);
          s4 = add_meta_parent E s3 (Val (PStr parent))
      in set_parent_uuid E s4 (PStr parent))"

text \<open>The loop: \<open>count\<close> proxies from index \<open>num\<close> on, each the parent of the next; \<open>n\<close>
  counts the identifiers drawn from the generator.\<close>

fun create_spines :: "env \<Rightarrow> nat \<Rightarrow> string \<Rightarrow> nat \<Rightarrow> nat \<Rightarrow> proxy list \<times> nat" where
  "create_spines E n parent num 0 = ([], n)"
| "create_spines E n parent num (Suc count) =
     (let s = new_spine E (generate_uuid E n) parent num
      in case create_spines E (Suc n) (uuid s) (Suc num) count of
           (rest, n') \<Rightarrow> (s # rest, n'))"

definition refresh_proxies_list :: "module_spine \<Rightarrow> module_spine" where
  "refresh_proxies_list self = self\<lparr>module_proxies := [hip self] @ spines self @ [chest self]\<rparr>"

definition set_spine_num :: "env \<Rightarrow> module_spine \<Rightarrow> nat \<Rightarrow> int \<Rightarrow> module_spine \<times> nat" where
  "set_spine_num E self n spine_num =
     (let spines_len = length (spines self)
      in if int spines_len = spine_num then (self, n)
         else
           (let grown =
                  (if int spines_len < spine_num then
                     (let parent = (if spines self \<noteq> [] then uuid (last (spines self))
                                    else uuid (hip self))
                      in case create_spines E n parent spines_len (nat (spine_num - int spines_len))
                         of (new, n') \<Rightarrow> (self\<lparr>spines := spines self @ new\<rparr>, n'))
                   else if int (length (spines self)) > spine_num then
                     (self\<lparr>spines := slice_to (spines self) spine_num\<rparr>, n)
                   else (self, n));
                s1 = fst grown;
                s2 = (if spines s1 \<noteq> [] then
                        s1\<lparr>chest := add_meta_parent E (chest s1) (Val (PStr (uuid (last (spines s1)))))\<rparr>
                      else
                        s1\<lparr>chest := add_meta_parent E (chest s1) (Val (PStr (uuid (hip s1))))\<rparr>)
            in (refresh_proxies_list s2, snd grown)))"

text \<open>
  \<^verbatim>\<open>ModuleSpine.__init__\<close> is not part of the model: its first three statements call the
  inherited constructor with a keyword \<^verbatim>\<open>suffix\<close>, \<^verbatim>\<open>OrientationData\<close> and
  \<^verbatim>\<open>self.set_orientation\<close>, none of which \<^verbatim>\<open>rig_framework.py\<close> defines. Its last two
  statements are \<^verbatim>\<open>self.spines = []\<close> and \<^verbatim>\<open>self.set_spine_num(spine_num=3)\<close>. The
  properties of \<^verbatim>\<open>set_spine_num\<close> are stated for every value of the fields, or for every
  module that calls of \<^verbatim>\<open>set_spine_num\<close> make of one without in-between proxies.
\<close>

text \<open>A sequence of \<^verbatim>\<open>set_spine_num\<close> calls on one module.\<close>

fun set_spine_nums :: "env \<Rightarrow> module_spine \<times> nat \<Rightarrow> int list \<Rightarrow> module_spine \<times> nat" where
  "set_spine_nums E mn [] = mn"
| "set_spine_nums E mn (k # ks) = set_spine_nums E (set_spine_num E (fst mn) (snd mn) k) ks"

text \<open>\<^verbatim>\<open>Proxy.get_meta_parent_uuid\<close>.\<close>

definition get_meta_parent_uuid :: "env \<Rightarrow> proxy \<Rightarrow> pyval" where
  "get_meta_parent_uuid E self =
     (case metadata self of
        Some m \<Rightarrow> if m \<noteq> [] then dict_get m (PROXY_META_PARENT E) else PNone
      | None \<Rightarrow> PNone)"

section \<open>Building a project\<close>

text \<open>
  \<^verbatim>\<open>RigProject.build_proxy\<close> and \<^verbatim>\<open>RigProject.build_rig\<close> act on the scene of the host
  application. The model records the calls they make, in order. Modules are named by their
  index in \<^verbatim>\<open>self.modules\<close>; \<open>Apply_attr_dict i j\<close> is \<^verbatim>\<open>apply_attr_dict\<close> of proxy \<open>j\<close> of
  module \<open>i\<close>, and the three calls made for each collected \<^verbatim>\<open>ProxyData\<close> carry its
  position in \<^verbatim>\<open>proxy_data_list\<close>.
\<close>

datatype call =
    Refresh_suspend
  | Refresh_resume
  | Refresh
  | Create_proxy_root_curve
  | Create_control_root_curve
  | Group_setup
  | Node_setup
  | Add_attr_setup
  | Set_attr_setup
  | Parent_setup
  | Module_build_proxy nat
  | Add_side_color_setup nat
  | Parent_data_setup nat
  | Parent_data_offset nat
  | Parent_proxies nat
  | Create_proxy_visualization_lines nat
  | Apply_attr_dict nat nat
  | Module_build_proxy_post nat
  | Module_build_rig nat
  | Module_build_rig_post nat

text \<open>
  The host is a parameter. Given the calls made so far it decides whether the next call
  raises, and how many \<^verbatim>\<open>ProxyData\<close> items the \<^verbatim>\<open>build_proxy\<close> of a module returns.
\<close>

record host =
  raises :: "call list \<Rightarrow> call \<Rightarrow> py_error option"
  built :: "call list \<Rightarrow> nat \<Rightarrow> nat"

text \<open>A sequence of calls: the first one that raises ends it. The result is the exception,
  if any, and the calls that were made; \<open>h\<close> is the history before the sequence.\<close>

fun run_calls :: "host \<Rightarrow> call list \<Rightarrow> call list \<Rightarrow> py_error option \<times> call list" where
  "run_calls H h [] = (None, [])"
| "run_calls H h (c # cs) =
     (case raises H h c of
        Some e \<Rightarrow> (Some e, [c])
      | None \<Rightarrow> (case run_calls H (h @ [c]) cs of (r, t) \<Rightarrow> (r, c # t)))"

text \<open>The next statements of a body run only when nothing was raised before them.\<close>

definition then_calls ::
  "host \<Rightarrow> call list \<Rightarrow> py_error option \<times> call list \<Rightarrow> call list
     \<Rightarrow> py_error option \<times> call list" where
  "then_calls H h r cs =
     (case r of
        (Some e, t) \<Rightarrow> (Some e, t)
      | (None, t) \<Rightarrow> (case run_calls H (h @ t) cs of (r', t') \<Rightarrow> (r', t @ t')))"

definition active_indices :: "rig_project \<Rightarrow> nat list" where
  "active_indices P =
     filter (\<lambda>i. module_active (project_modules P ! i)) [0..<length (project_modules P)]"

text \<open>The first loop of \<^verbatim>\<open>build_proxy\<close>: \<^verbatim>\<open>proxy_data_list += module.build_proxy()\<close> for each
  active module; \<open>acc\<close> is the length of the list.\<close>

fun collect_proxy_data ::
  "host \<Rightarrow> call list \<Rightarrow> nat list \<Rightarrow> nat \<Rightarrow> (py_error + nat) \<times> call list" where
  "collect_proxy_data H h [] acc = (Inr acc, [])"
| "collect_proxy_data H h (i # rest) acc =
     (case raises H h (Module_build_proxy i) of
        Some e \<Rightarrow> (Inl e, [Module_build_proxy i])
      | None \<Rightarrow>
          (case collect_proxy_data H (h @ [Module_build_proxy i]) rest (acc + built H h i) of
             (r, t) \<Rightarrow> (r, Module_build_proxy i # t)))"

definition proxy_data_calls :: "nat \<Rightarrow> call list" where
  "proxy_data_calls count =
     concat (map (\<lambda>j. [Add_side_color_setup j, Parent_data_setup j, Parent_data_offset j])
               [0..<count])"

definition parent_proxy_calls :: "rig_project \<Rightarrow> call list" where
  "parent_proxy_calls P =
     concat (map (\<lambda>i. [Parent_proxies i, Create_proxy_visualization_lines i]
                        @ map (Apply_attr_dict i)
                            [0..<length (module_proxies (project_modules P ! i))]
                        @ [Module_build_proxy_post i])
               (active_indices P))"

text \<open>The body of the \<^verbatim>\<open>try\<close> statement of \<^verbatim>\<open>build_proxy\<close>.\<close>

definition build_proxy_body :: "host \<Rightarrow> rig_project \<Rightarrow> call list \<Rightarrow> py_error option \<times> call list"
  where
  "build_proxy_body H P h =
     (case run_calls H h
             [Create_proxy_root_curve, Group_setup, Add_attr_setup, Set_attr_setup, Parent_setup]
      of
        (Some e, t) \<Rightarrow> (Some e, t)
      | (None, t) \<Rightarrow>
          (case collect_proxy_data H (h @ t) (active_indices P) 0 of
             (Inl e, t') \<Rightarrow> (Some e, t @ t')
           | (Inr count, t') \<Rightarrow>
               then_calls H h
                 (then_calls H h (None, t @ t') (proxy_data_calls count))
                 (parent_proxy_calls P)))"

text \<open>The body of the \<^verbatim>\<open>try\<close> statement of \<^verbatim>\<open>build_rig\<close>.\<close>

definition build_rig_body :: "host \<Rightarrow> rig_project \<Rightarrow> call list \<Rightarrow> py_error option \<times> call list"
  where
  "build_rig_body H P h =
     then_calls H h
       (then_calls H h
          (run_calls H h
             [Create_control_root_curve, Group_setup, Node_setup, Add_attr_setup, Set_attr_setup,
              Parent_setup])
          (map Module_build_rig (active_indices P)))
       (map Module_build_rig_post (active_indices P))"

text \<open>
  \<^verbatim>\<open>cmds.refresh(suspend=True)\<close> comes before the \<^verbatim>\<open>try\<close>; the handler re-raises what the
  body raised; the \<^verbatim>\<open>finally\<close> block makes the two closing calls, and an exception raised
  there replaces the pending one.
\<close>

definition refresh_bracket ::
  "host \<Rightarrow> call list \<Rightarrow> (call list \<Rightarrow> py_error option \<times> call list)
     \<Rightarrow> py_error option \<times> call list" where
  "refresh_bracket H h body =
     (case raises H h Refresh_suspend of
        Some e \<Rightarrow> (Some e, [Refresh_suspend])
      | None \<Rightarrow>
          (case body (h @ [Refresh_suspend]) of
             (r, t) \<Rightarrow>
               (case run_calls H (h @ Refresh_suspend # t) [Refresh_resume, Refresh] of
                  (Some e, t') \<Rightarrow> (Some e, Refresh_suspend # t @ t')
                | (None, t') \<Rightarrow> (r, Refresh_suspend # t @ t'))))"

definition RigProject_build_proxy ::
  "host \<Rightarrow> rig_project \<Rightarrow> call list \<Rightarrow> py_error option \<times> call list" where
  "RigProject_build_proxy H P h = refresh_bracket H h (build_proxy_body H P)"

definition RigProject_build_rig ::
  "host \<Rightarrow> rig_project \<Rightarrow> call list \<Rightarrow> py_error option \<times> call list" where
  "RigProject_build_rig H P h = refresh_bracket H h (build_rig_body H P)"

section \<open>Notions used in the statements\<close>

subsection \<open>Identifiers\<close>

definition uuid_string :: "pyval \<Rightarrow> string option" where
  "uuid_string v = (case v of PStr s \<Rightarrow> Some s | _ \<Rightarrow> None)"

text \<open>A non-empty string that the full-form validator accepts: \<^verbatim>\<open>set_parent_uuid\<close> and
  \<^verbatim>\<open>add_meta_parent\<close> both take it.\<close>

definition valid_id :: "env \<Rightarrow> string \<Rightarrow> bool" where
  "valid_id E s = (s \<noteq> [] \<and> is_uuid_valid E s)"

text \<open>A non-empty string that one of the two validators accepts: \<^verbatim>\<open>set_uuid\<close> and
  \<^verbatim>\<open>set_parent_uuid\<close> take it.\<close>

definition accepted_id :: "env \<Rightarrow> string \<Rightarrow> bool" where
  "accepted_id E s = (s \<noteq> [] \<and> (is_uuid_valid E s \<or> is_short_uuid_valid E s))"

text \<open>The generator and the validator agree: every generated identifier is a non-empty
  string in the full form.\<close>

definition generator_ok :: "env \<Rightarrow> bool" where
  "generator_ok E = (\<forall>k. generate_uuid E k \<noteq> [] \<and> is_uuid_valid E (generate_uuid E k))"

subsection \<open>Descriptions that the readers load without an exception\<close>

definition sized_or_falsy :: "pyval \<Rightarrow> bool" where
  "sized_or_falsy v = (\<not> truthy v \<or> (case py_len v of Inr n \<Rightarrow> True | Inl e \<Rightarrow> False))"

definition proxy_description_ok :: "pyval \<Rightarrow> bool" where
  "proxy_description_ok v =
     (case v of
        PDict d \<Rightarrow> sized_or_falsy (dict_get d ''transform'')
                  \<and> sized_or_falsy (dict_get d ''offsetTransform'')
      | _ \<Rightarrow> False)"

definition module_description_ok :: "pyval \<Rightarrow> bool" where
  "module_description_ok v =
     (case v of
        PDict d \<Rightarrow>
          (case dict_get d ''proxies'' of
             PDict ps \<Rightarrow> list_all (\<lambda>entry. proxy_description_ok (snd entry)) ps
           | _ \<Rightarrow> True)
      | _ \<Rightarrow> False)"

text \<open>The proxy that one entry of a \<^verbatim>\<open>proxies\<close> dictionary yields when \<open>n\<close> identifiers
  were generated before it, and the module that the entries of a module description yield.\<close>

definition read_proxy_entry :: "env \<Rightarrow> nat \<times> string \<times> pyval \<Rightarrow> proxy" where
  "read_proxy_entry E entry =
     (case entry of (n, uuid_key, description) \<Rightarrow>
        state_of (read_data_from_dict E
          (set_uuid E (Proxy_init E (generate_uuid E n) no_args) (PStr uuid_key)) description))"

definition generic_module_of :: "env \<Rightarrow> nat \<Rightarrow> (string \<times> pyval) list \<Rightarrow> rig_module" where
  "generic_module_of E n d =
     \<lparr>module_class = ''ModuleGeneric'',
      module_name = (case dict_get d ''name'' of
                       PStr s \<Rightarrow> if s \<noteq> [] then Some s else None | _ \<Rightarrow> None),
      module_prefix = (case dict_get d ''prefix'' of
                         PStr s \<Rightarrow> if s \<noteq> [] then Some s else None | _ \<Rightarrow> None),
      module_proxies = (case dict_get d ''proxies'' of
                          PDict ps \<Rightarrow> map (read_proxy_entry E) (enumerate n ps) | _ \<Rightarrow> []),
      module_parent_uuid = (if accepted_uuid E (dict_get d ''parent'')
                            then uuid_string (dict_get d ''parent'') else None),
      module_metadata = (case dict_get d ''metadata'' of
                           PDict m \<Rightarrow> if m \<noteq> [] then Some m else None | _ \<Rightarrow> None),
      module_active = (case dict_get d ''active'' of PBool b \<Rightarrow> b | _ \<Rightarrow> True)\<rparr>"

definition proxies_count :: "(string \<times> pyval) list \<Rightarrow> nat" where
  "proxies_count d = (case dict_get d ''proxies'' of PDict ps \<Rightarrow> length ps | _ \<Rightarrow> 0)"

subsection \<open>The chain of in-between proxies\<close>

fun chained :: "string \<Rightarrow> proxy list \<Rightarrow> bool" where
  "chained h [] = True"
| "chained h (s # rest) = (parent_uuid s = Some h \<and> chained (uuid s) rest)"

definition last_uuid :: "string \<Rightarrow> proxy list \<Rightarrow> string" where
  "last_uuid h xs = (if xs \<noteq> [] then uuid (last xs) else h)"

text \<open>The in-between proxies are chained from hip, hip's identifier can be the parent of a
  proxy, and the identifier of every in-between proxy is in the full form.\<close>

definition spine_chain :: "env \<Rightarrow> module_spine \<Rightarrow> bool" where
  "spine_chain E m =
     (accepted_id E (uuid (hip m))
      \<and> (\<forall>s \<in> set (spines m). valid_id E (uuid s))
      \<and> chained (uuid (hip m)) (spines m))"

subsection \<open>Traces of a build\<close>

text \<open>The calls that wire the guides after they were built: the calls made for each
  \<^verbatim>\<open>ProxyData\<close> and the calls of the second loop over the modules.\<close>

fun after_build_proxy :: "call \<Rightarrow> bool" where
  "after_build_proxy (Add_side_color_setup j) = True"
| "after_build_proxy (Parent_data_setup j) = True"
| "after_build_proxy (Parent_data_offset j) = True"
| "after_build_proxy (Parent_proxies i) = True"
| "after_build_proxy (Create_proxy_visualization_lines i) = True"
| "after_build_proxy (Apply_attr_dict i j) = True"
| "after_build_proxy (Module_build_proxy_post i) = True"
| "after_build_proxy c = False"

fun is_refresh :: "call \<Rightarrow> bool" where
  "is_refresh Refresh_suspend = True"
| "is_refresh Refresh_resume = True"
| "is_refresh Refresh = True"
| "is_refresh c = False"

definition rig_prelude :: "call list" where
  "rig_prelude = [Create_control_root_curve, Group_setup, Node_setup, Add_attr_setup,
     Set_attr_setup, Parent_setup]"

definition proxy_prelude :: "call list" where
  "proxy_prelude = [Create_proxy_root_curve, Group_setup, Add_attr_setup, Set_attr_setup,
     Parent_setup]"

text \<open>A trace and a result agree with the host: every call but the last returned, and the
  result is what the last call did.\<close>

fun consistent :: "host \<Rightarrow> call list \<Rightarrow> call list \<Rightarrow> py_error option \<Rightarrow> bool" where
  "consistent H h [] r = (r = None)"
| "consistent H h [c] r = (raises H h c = r)"
| "consistent H h (c # c' # t) r = (raises H h c = None \<and> consistent H (h @ [c]) (c' # t) r)"

text \<open>The three \<^verbatim>\<open>cmds.refresh\<close> calls of the bracket return.\<close>

definition refresh_returns :: "host \<Rightarrow> bool" where
  "refresh_returns H =
     (\<forall>h. raises H h Refresh_suspend = None \<and> raises H h Refresh_resume = None
          \<and> raises H h Refresh = None)"

section \<open>An instance of the collaborators\<close>

text \<open>
  A concrete instance of the parameters, used to run the definitions on examples: identifiers
  are non-empty strings of hexadecimal digits, the full form has 32 of them, and the \<open>n\<close>-th
  generated identifier is the number \<open>n\<close> written with 32 hexadecimal digits.
\<close>

definition is_hex :: "char \<Rightarrow> bool" where
  "is_hex c = (c \<in> set ''0123456789abcdef'')"

fun hex_digits :: "nat \<Rightarrow> nat \<Rightarrow> string" where
  "hex_digits 0 n = []"
| "hex_digits (Suc k) n = hex_digits k (n div 16) @ [''0123456789abcdef'' ! (n mod 16)]"

definition example_env :: env where
  "example_env =
     \<lparr>is_uuid_valid = (\<lambda>s. length s = 32 \<and> list_all is_hex s),
      is_short_uuid_valid = (\<lambda>s. s \<noteq> [] \<and> list_all is_hex s),
      generate_uuid = hex_digits 32,
      get_curve = (\<lambda>n. \<lparr>curve_name = n, curve_valid = True\<rparr>),
      PROXY_META_PARENT = ''metaParent'',
      PROXY_META_TYPE = ''metaType'',
      FOLLOWER = PTuple [PFloat 1, PFloat 1, PFloat 0]\<rparr>"

section \<open>Examples\<close>

definition beef_proxy :: proxy where
  "beef_proxy =
     set_parent_uuid example_env (Proxy_init example_env ''a1'' no_args) (PStr ''beef'')"

definition hip_transform :: transform where
  "hip_transform = \<lparr>position = (0, 5, 0), rotation = (0, 0, 0), scale = (1, 1, 1)\<rparr>"

definition hip_offset :: transform where
  "hip_offset = \<lparr>position = (1, 2, 3), rotation = (0, 0, 0), scale = (1, 1, 1)\<rparr>"

definition moved_proxy :: proxy where
  "moved_proxy =
     set_offset_transform
       (set_transform (Proxy_init example_env ''a1'' no_args) (PTransform hip_transform))
       (PTransform hip_offset)"

text \<open>A registry that lists \<^verbatim>\<open>ModuleGeneric\<close> only.\<close>

definition example_registry :: registry where
  "example_registry =
     \<lparr>available_modules =
        (\<lambda>c. if c = ''ModuleGeneric'' then Some (\<lambda>n. (ModuleGeneric_init, n)) else None),
      class_read_data_from_dict = (\<lambda>c m n v. (Returned_self m, n)),
      class_get_module_as_dict = (\<lambda>c m. PDict [])\<rparr>"

definition module_a :: rig_module where
  "module_a = ModuleGeneric_set_name ModuleGeneric_init (PStr ''a'')"

definition module_b :: rig_module where
  "module_b = ModuleGeneric_set_name ModuleGeneric_init (PStr ''b'')"

definition twin_project :: rig_project where
  "twin_project =
     RigProject_init\<lparr>project_modules := [module_a, module_b],
                     project_metadata := Some [(''author'', PStr ''me'')]\<rparr>"

text \<open>The description of a module in the format that \<^verbatim>\<open>get_module_as_dict\<close> writes, with
  one proxy whose transform and offset transform differ.\<close>

definition tip_description :: "(string \<times> pyval) list" where
  "tip_description =
     [(''name'', PStr ''tip''), (''parent'', PNone), (''locatorScale'', PInt 2),
      (''transform'', get_transform_as_dict hip_transform),
      (''offsetTransform'', get_transform_as_dict hip_offset),
      (''attributes'', PDict [(''radius'', PInt 3)]),
      (''metadata'', PDict [(''metaType'', PStr ''tip'')])]"

definition tail_description :: "(string \<times> pyval) list" where
  "tail_description =
     [(''name'', PStr ''tail''), (''active'', PBool False), (''prefix'', PStr ''left''),
      (''parent'', PStr ''beef''), (''metadata'', PDict [(''side'', PStr ''left'')]),
      (''proxies'', PDict [(''c0de'', PDict tip_description)])]"

text \<open>A spine module with its two fixed proxies and no in-between proxy; the module that
  \<^verbatim>\<open>set_spine_num(3)\<close> makes of it; that module after \<^verbatim>\<open>hip.set_uuid("beef")\<close>; that
  module after \<^verbatim>\<open>spines[1].set_uuid("cafe")\<close>; and that module after \<^verbatim>\<open>set_spine_num(0)\<close>
  and a call of \<^verbatim>\<open>hip.set_uuid\<close> with an identifier in the full form. The list
  \<^verbatim>\<open>proxies\<close> holds the proxy objects themselves, so it shows a new identifier as well.\<close>

definition bare_spine :: module_spine where
  "bare_spine =
     \<lparr>module_class = ''ModuleSpine'', module_name = Some ''Spine'', module_prefix = None,
      module_proxies = [], module_parent_uuid = None, module_metadata = None,
      module_active = True,
      hip = set_meta_type example_env
              (Proxy_init example_env (hex_digits 32 0) (no_args\<lparr>arg_name := PStr ''hip''\<rparr>))
              (PStr ''hip''),
      chest = set_meta_type example_env
                (Proxy_init example_env (hex_digits 32 1) (no_args\<lparr>arg_name := PStr ''chest''\<rparr>))
                (PStr ''chest''),
      spines = []\<rparr>"





text \<open>A host on which every call returns, and one on which \<^verbatim>\<open>build_rig\<close> of the second
  module raises.\<close>

definition quiet_host :: host where
  "quiet_host = \<lparr>raises = (\<lambda>h c. None), built = (\<lambda>h i. 1)\<rparr>"

definition failing_host :: host where
  "failing_host =
     \<lparr>raises = (\<lambda>h c. if c = Module_build_rig 1 then Some (HostError ''joint'') else None),
      built = (\<lambda>h i. 1)\<rparr>"

section \<open>Properties of dictionaries\<close>

lemma map_of_dict_set: "map_of (dict_set d k v) = (map_of d)(k \<mapsto> v)"
  by (induction d k v rule: dict_set.induct) (auto simp: fun_eq_iff)

lemma keys_dict_set: "fst ` set (dict_set d k v) = insert k (fst ` set d)"
  by (induction d k v rule: dict_set.induct) auto

lemma distinct_dict_set: "distinct (map fst d) \<Longrightarrow> distinct (map fst (dict_set d k v))"
  by (induction d k v rule: dict_set.induct) (auto simp: keys_dict_set)

lemma dict_get_dict_set: "dict_get (dict_set d k v) k' = (if k' = k then v else dict_get d k')"
  by (simp add: dict_get_def map_of_dict_set)

lemma dict_get_dict_set_same: "dict_get (dict_set d k v) k = v"
  by (induction d k v rule: dict_set.induct) (auto simp: dict_get_def)

lemma dict_set_not_empty: "dict_set d k v \<noteq> []"
  by (cases d) (auto split: if_splits)

section \<open>Properties of the proxy\<close>

subsection \<open>The parent identifier\<close>

lemma parent_uuid_set_name: "parent_uuid (set_name p v) = parent_uuid p"
  by (cases v) (simp_all add: set_name_def)

lemma parent_uuid_set_transform: "parent_uuid (set_transform p v) = parent_uuid p"
  by (cases v) (simp_all add: set_transform_def)

lemma parent_uuid_set_offset_transform: "parent_uuid (set_offset_transform p v) = parent_uuid p"
  by (cases v) (simp_all add: set_offset_transform_def)

lemma parent_uuid_set_curve: "parent_uuid (set_curve p v b) = parent_uuid p"
  by (cases v) (simp_all add: set_curve_def parent_uuid_set_name)

lemma parent_uuid_set_locator_scale: "parent_uuid (set_locator_scale p v) = parent_uuid p"
  by (simp add: set_locator_scale_def)

lemma parent_uuid_set_attr_dict: "parent_uuid (set_attr_dict p v) = parent_uuid p"
  by (cases v) (simp_all add: set_attr_dict_def)

lemma parent_uuid_set_metadata_dict: "parent_uuid (set_metadata_dict p v) = parent_uuid p"
  by (cases v) (simp_all add: set_metadata_dict_def)

lemma parent_uuid_add_meta_parent: "parent_uuid (add_meta_parent E p a) = parent_uuid p"
  by (simp add: add_meta_parent_def Let_def split: arg.splits pyval.splits)

lemma parent_uuid_add_color: "parent_uuid (add_color p v) = parent_uuid p"
  by (simp add: add_color_def split: option.splits)

lemma parent_uuid_set_uuid: "parent_uuid (set_uuid E p v) = parent_uuid p"
  by (cases v) (simp_all add: set_uuid_def)

lemma parent_uuid_set_parent_uuid:
  "parent_uuid (set_parent_uuid E p v) =
     (if accepted_uuid E v then (case v of PStr s \<Rightarrow> Some s | _ \<Rightarrow> None) else parent_uuid p)"
  by (cases v) (simp_all add: set_parent_uuid_def accepted_uuid_def)

lemma parent_uuid_read_tail: "parent_uuid (read_tail E p d) = parent_uuid p"
  by (simp add: read_tail_def Let_def parent_uuid_set_uuid parent_uuid_set_metadata_dict
      parent_uuid_set_attr_dict)

lemma parent_uuid_read_transform_block:
  "read_transform_block p v = Inr p' \<Longrightarrow> parent_uuid p' = parent_uuid p"
  by (auto simp: read_transform_block_def initialize_transform_def Let_def
      split: if_splits sum.splits)

lemma parent_uuid_read_offset_block:
  "read_offset_block p v w = Inr p' \<Longrightarrow> parent_uuid p' = parent_uuid p"
  by (auto simp: read_offset_block_def initialize_offset_transform_def Let_def
      split: if_splits sum.splits)



lemma parent_uuid_read_head:
  "parent_uuid (read_head E p d) =
     (if accepted_uuid E (dict_get d ''parent'')
      then (case dict_get d ''parent'' of PStr s \<Rightarrow> Some s | _ \<Rightarrow> None) else parent_uuid p)"
  by (cases "dict_get d ''parent''")
     (simp_all add: read_head_def Let_def parent_uuid_set_locator_scale
        parent_uuid_set_parent_uuid parent_uuid_set_name accepted_uuid_def)

lemma state_of_read_dict_cases:
  "state_of (read_data_from_dict E p (PDict d)) = read_head E p d
   \<or> (\<exists>s4. read_transform_block (read_head E p d) (dict_get d ''transform'') = Inr s4
         \<and> (state_of (read_data_from_dict E p (PDict d)) = s4
           \<or> (\<exists>s5. read_offset_block s4 (dict_get d ''offsetTransform'') (dict_get d ''transform'') = Inr s5
                 \<and> state_of (read_data_from_dict E p (PDict d)) = read_tail E s5 d)))"
  by (simp add: read_data_from_dict_def Let_def split: sum.splits)

lemma parent_uuid_read_dict:
  "parent_uuid (state_of (read_data_from_dict E p (PDict d))) = parent_uuid (read_head E p d)"
  using state_of_read_dict_cases [of E p d]
  by (auto simp: parent_uuid_read_tail
      dest!: parent_uuid_read_transform_block parent_uuid_read_offset_block)

lemma parent_uuid_read_data_from_dict:
  "parent_uuid (state_of (read_data_from_dict E p v)) =
     (if accepted_uuid E (parent_entry v)
      then (case parent_entry v of PStr s \<Rightarrow> Some s | _ \<Rightarrow> None) else parent_uuid p)"
proof (cases v)
  case (PDict d)
  then show ?thesis
    by (simp add: parent_uuid_read_dict parent_uuid_read_head parent_entry_def)
qed (simp_all add: read_data_from_dict_def parent_entry_def accepted_uuid_def)

lemma parent_uuid_ok_apply:
  "parent_uuid_ok E p \<Longrightarrow> parent_uuid_ok E (apply_proxy_op E p op)"
proof (cases op)
  case (Set_parent_uuid v)
  assume "parent_uuid_ok E p"
  then show ?thesis using Set_parent_uuid
    by (cases v) (simp_all add: parent_uuid_ok_def parent_uuid_set_parent_uuid accepted_uuid_def)
next
  case (Set_parent_uuid_from_proxy a)
  assume "parent_uuid_ok E p"
  then show ?thesis using Set_parent_uuid_from_proxy
    by (cases a)
       (simp_all add: parent_uuid_ok_def set_parent_uuid_from_proxy_def
          parent_uuid_set_parent_uuid accepted_uuid_def)
next
  case (Read_data_from_dict v)
  assume "parent_uuid_ok E p"
  then show ?thesis using Read_data_from_dict
    by (cases "parent_entry v")
       (simp_all add: parent_uuid_ok_def parent_uuid_read_data_from_dict accepted_uuid_def)
qed (simp_all add: parent_uuid_ok_def parent_uuid_set_name parent_uuid_set_transform
      parent_uuid_set_offset_transform parent_uuid_set_curve parent_uuid_set_locator_scale
      parent_uuid_set_attr_dict parent_uuid_set_metadata_dict parent_uuid_add_meta_parent
      parent_uuid_add_color parent_uuid_set_uuid add_to_attr_dict_def add_to_metadata_def
      set_meta_type_def clear_parent_uuid_def set_position_def set_offset_position_def
      set_initial_position_def initialize_transform_def initialize_offset_transform_def Let_def)

lemma parent_uuid_ok_init: "parent_uuid_ok E (Proxy_init E fresh a)"
proof -
  have d: "parent_uuid_ok E (Proxy_defaults E fresh)"
    by (simp add: parent_uuid_ok_def Proxy_defaults_def)
  have step:
    "\<And>p c v. parent_uuid_ok E p \<Longrightarrow> parent_uuid_ok E (if c then set_name p v else p)"
    "\<And>p c v. parent_uuid_ok E p \<Longrightarrow> parent_uuid_ok E (if c then set_transform p v else p)"
    "\<And>p c v. parent_uuid_ok E p \<Longrightarrow> parent_uuid_ok E (if c then set_offset_transform p v else p)"
    "\<And>p c v b. parent_uuid_ok E p \<Longrightarrow> parent_uuid_ok E (if c then set_curve p v b else p)"
    "\<And>p c v. parent_uuid_ok E p \<Longrightarrow> parent_uuid_ok E (if c then set_uuid E p v else p)"
    "\<And>p c v. parent_uuid_ok E p \<Longrightarrow> parent_uuid_ok E (if c then set_parent_uuid E p v else p)"
    "\<And>p c v. parent_uuid_ok E p \<Longrightarrow> parent_uuid_ok E (if c then set_locator_scale p v else p)"
    "\<And>p c v. parent_uuid_ok E p \<Longrightarrow> parent_uuid_ok E (if c then set_attr_dict p v else p)"
    "\<And>p c v. parent_uuid_ok E p \<Longrightarrow> parent_uuid_ok E (if c then set_metadata_dict p v else p)"
    using parent_uuid_ok_apply [of E _ "Set_name _"]
      parent_uuid_ok_apply [of E _ "Set_transform _"]
      parent_uuid_ok_apply [of E _ "Set_offset_transform _"]
      parent_uuid_ok_apply [of E _ "Set_curve _ _"]
      parent_uuid_ok_apply [of E _ "Set_uuid _"]
      parent_uuid_ok_apply [of E _ "Set_parent_uuid _"]
      parent_uuid_ok_apply [of E _ "Set_locator_scale _"]
      parent_uuid_ok_apply [of E _ "Set_attr_dict _"]
      parent_uuid_ok_apply [of E _ "Set_metadata_dict _"]
    by simp_all
  show ?thesis
    unfolding Proxy_init_def Let_def
    by (intro step d)
qed


text \<open>
  Claim C9. The constructor establishes, and every mutating operation of a proxy preserves,
  that \<open>parent_uuid\<close> is \<^verbatim>\<open>None\<close> or a string accepted by the full or the short format
  validator. \<^verbatim>\<open>set_parent_uuid\<close> and \<^verbatim>\<open>read_data_from_dict\<close> store an accepted string and
  leave \<open>parent_uuid\<close> as it was for every other value (also when the reader returns
  \<^verbatim>\<open>None\<close> or raises); \<^verbatim>\<open>set_parent_uuid_from_proxy\<close> stores the other proxy's identifier
  when the validators accept it and changes nothing otherwise; \<^verbatim>\<open>clear_parent_uuid\<close> sets
  \<^verbatim>\<open>None\<close>.
\<close>

theorem proxy_parent_uuid_invariant:
  "parent_uuid_ok E (Proxy_init E fresh a)
   \<and> (parent_uuid_ok E p \<longrightarrow> parent_uuid_ok E (apply_proxy_op E p op))
   \<and> parent_uuid (set_parent_uuid E p v) =
       (if accepted_uuid E v then uuid_string v else parent_uuid p)
   \<and> parent_uuid (state_of (read_data_from_dict E p v)) =
       (if accepted_uuid E (parent_entry v) then uuid_string (parent_entry v) else parent_uuid p)
   \<and> parent_uuid (set_parent_uuid_from_proxy E p (ProxyObj q)) =
       (if accepted_uuid E (PStr (uuid q)) then Some (uuid q) else parent_uuid p)
   \<and> parent_uuid (set_parent_uuid_from_proxy E p (Val v)) = parent_uuid p
   \<and> parent_uuid (clear_parent_uuid p) = None"
  by (simp add: parent_uuid_ok_init parent_uuid_ok_apply parent_uuid_set_parent_uuid
      parent_uuid_read_data_from_dict uuid_string_def set_parent_uuid_from_proxy_def
      clear_parent_uuid_def)

theorem proxy_parent_uuid_invariant_witness:
  "parent_uuid_ok example_env beef_proxy
   \<and> parent_uuid beef_proxy = Some ''beef''
   \<and> parent_uuid_ok example_env
       (apply_proxy_op example_env beef_proxy
          (Read_data_from_dict (PDict [(''parent'', PStr ''not-hex'')])))
   \<and> parent_uuid (set_parent_uuid example_env beef_proxy (PInt 7)) = Some ''beef''
   \<and> parent_uuid (state_of (read_data_from_dict example_env beef_proxy
         (PDict [(''parent'', PStr ''not-hex'')]))) = Some ''beef''
   \<and> parent_uuid (state_of (read_data_from_dict example_env beef_proxy
         (PDict [(''parent'', PStr ''c0de'')]))) = Some ''c0de''
   \<and> parent_uuid (set_parent_uuid_from_proxy example_env beef_proxy
         (ProxyObj (Proxy_init example_env ''a2'' no_args))) = Some ''a2''
   \<and> parent_uuid (clear_parent_uuid beef_proxy) = None"
proof -
  have ok: "parent_uuid_ok example_env beef_proxy"
    using proxy_parent_uuid_invariant
      [of example_env "''a1''" no_args "Proxy_init example_env ''a1'' no_args"
          "Set_parent_uuid (PStr ''beef'')"]
    by (simp add: beef_proxy_def)
  have beef: "parent_uuid beef_proxy = Some ''beef''"
    using proxy_parent_uuid_invariant
      [of example_env _ _ "Proxy_init example_env ''a1'' no_args" _ "PStr ''beef''"]
    by (simp add: beef_proxy_def accepted_uuid_def uuid_string_def example_env_def is_hex_def)
  have a2: "uuid (Proxy_init example_env ''a2'' no_args) = ''a2''"
    by (simp add: Proxy_init_def Proxy_defaults_def no_args_def)
  show ?thesis
    using ok beef a2
      proxy_parent_uuid_invariant
        [of example_env _ _ beef_proxy
            "Read_data_from_dict (PDict [(''parent'', PStr ''not-hex'')])" "PInt 7"
            "Proxy_init example_env ''a2'' no_args"]
      proxy_parent_uuid_invariant
        [of example_env _ _ beef_proxy _ "PDict [(''parent'', PStr ''not-hex'')]"]
      proxy_parent_uuid_invariant
        [of example_env _ _ beef_proxy _ "PDict [(''parent'', PStr ''c0de'')]"]
    by (simp add: accepted_uuid_def uuid_string_def parent_entry_def dict_get_def
        example_env_def is_hex_def)
qed

subsection \<open>Setters and wrong types\<close>

text \<open>Eight of the nine type-checked setters return before the assignment when the argument
  has the wrong type.\<close>

lemma typed_setters_reject:
  "\<not> isinstance_str v \<Longrightarrow> set_name p v = p"
  "\<not> isinstance_Transform v \<Longrightarrow> set_transform p v = p"
  "\<not> isinstance_Transform v \<Longrightarrow> set_offset_transform p v = p"
  "\<not> isinstance_Curve v \<Longrightarrow> set_curve p v b = p"
  "\<not> isinstance_dict v \<Longrightarrow> set_attr_dict p v = p"
  "\<not> isinstance_dict v \<Longrightarrow> set_metadata_dict p v = p"
  "\<not> isinstance_str v \<Longrightarrow> set_uuid E p v = p"
  "\<not> isinstance_str v \<Longrightarrow> set_parent_uuid E p v = p"
  by (cases v; simp add: set_name_def set_transform_def set_offset_transform_def set_curve_def
      set_attr_dict_def set_metadata_dict_def set_uuid_def set_parent_uuid_def)+

text \<open>
  Claim C2. A setter called with an argument of the wrong type is to leave every field of
  the proxy unchanged. \<^verbatim>\<open>set_locator_scale\<close> does not: on a freshly constructed proxy, whose
  locator scale is \<open>1\<close>, the call \<^verbatim>\<open>set_locator_scale("large")\<close> stores the string.
\<close>

theorem set_locator_scale_stores_wrong_type:
  "\<not> isinstance_number (PStr ''large'')
   \<and> locator_scale (Proxy_init example_env ''a1'' no_args) = PInt 1
   \<and> locator_scale (set_locator_scale (Proxy_init example_env ''a1'' no_args) (PStr ''large''))
       = PStr ''large''
   \<and> set_locator_scale (Proxy_init example_env ''a1'' no_args) (PStr ''large'')
       \<noteq> Proxy_init example_env ''a1'' no_args"
proof -
  have one: "locator_scale (Proxy_init example_env ''a1'' no_args) = PInt 1"
    by (simp add: Proxy_init_def Proxy_defaults_def no_args_def)
  have stored: "locator_scale (set_locator_scale p v) = v" for p v
    by (simp add: set_locator_scale_def)
  have "locator_scale (set_locator_scale (Proxy_init example_env ''a1'' no_args) (PStr ''large''))
        \<noteq> locator_scale (Proxy_init example_env ''a1'' no_args)"
    by (simp add: one stored)
  then have "set_locator_scale (Proxy_init example_env ''a1'' no_args) (PStr ''large'')
        \<noteq> Proxy_init example_env ''a1'' no_args"
    by auto
  then show ?thesis
    by (simp add: one stored)
qed

subsection \<open>Round trip through the dictionary\<close>

lemma set_transform_from_dict_get: "set_transform_from_dict t (get_transform_as_dict t') = t'"
  by (cases t'; cases "position t'"; cases "rotation t'"; cases "scale t'")
     (auto simp: get_transform_as_dict_def vector3_as_list_def)

lemma truthy_transform_dict: "truthy (get_transform_as_dict t)" "py_len (get_transform_as_dict t) = Inr 3"
  by (simp_all add: get_transform_as_dict_def)

lemma serialized_entries:
  assumes "get_proxy_as_dict p False True True = PDict d"
  shows "dict_get d ''name'' = PStr (name p)"
    and "dict_get d ''parent'' = (case parent_uuid p of None \<Rightarrow> PNone | Some s \<Rightarrow> PStr s)"
    and "dict_get d ''locatorScale'' = locator_scale p"
    and "dict_get d ''transform'' = (case transform p of None \<Rightarrow> PNone | Some t \<Rightarrow> get_transform_as_dict t)"
    and "dict_get d ''offsetTransform'' = (case offset_transform p of None \<Rightarrow> PNone | Some t \<Rightarrow> get_transform_as_dict t)"
    and "dict_get d ''attributes'' = (if attr_dict p = [] then PNone else PDict (attr_dict p))"
    and "dict_get d ''metadata'' = (case metadata p of None \<Rightarrow> PNone | Some m \<Rightarrow> if m = [] then PNone else PDict m)"
    and "dict_get d ''uuid'' = PNone"
proof -
  have base: "dict_get [(''name'', a), (''parent'', b), (''locatorScale'', c)] k
      = (if k = ''name'' then a else if k = ''parent'' then b
         else if k = ''locatorScale'' then c else PNone)" for a b c k
    by (simp add: dict_get_def)
  have d: "PDict d = get_proxy_as_dict p False True True" using assms by simp
  have inj: "PDict d = PDict d' \<Longrightarrow> d = d'" for d' by simp
  note d' = inj [OF d [unfolded get_proxy_as_dict_def Let_def]]
  show "dict_get d ''name'' = PStr (name p)"
    and "dict_get d ''parent'' = (case parent_uuid p of None \<Rightarrow> PNone | Some s \<Rightarrow> PStr s)"
    and "dict_get d ''locatorScale'' = locator_scale p"
    and "dict_get d ''transform'' = (case transform p of None \<Rightarrow> PNone | Some t \<Rightarrow> get_transform_as_dict t)"
    and "dict_get d ''offsetTransform'' = (case offset_transform p of None \<Rightarrow> PNone | Some t \<Rightarrow> get_transform_as_dict t)"
    and "dict_get d ''attributes'' = (if attr_dict p = [] then PNone else PDict (attr_dict p))"
    and "dict_get d ''metadata'' = (case metadata p of None \<Rightarrow> PNone | Some m \<Rightarrow> if m = [] then PNone else PDict m)"
    and "dict_get d ''uuid'' = PNone"
    unfolding d'
    by (simp_all add: dict_get_dict_set base split: option.splits del: dict_set.simps)
qed

lemma get_proxy_as_dict_is_dict: "\<exists>d. get_proxy_as_dict p a b c = PDict d"
  by (simp add: get_proxy_as_dict_def Let_def)

lemma Proxy_init_no_args: "Proxy_init E fresh no_args = Proxy_defaults E fresh"
  by (simp add: Proxy_init_def no_args_def Let_def)

text \<open>What the round trip does reproduce: for a proxy whose name, locator scale, parent and
  metadata are such that the reader's truthiness tests let the entries through, every field
  but the offset transform comes back, and the offset transform comes back as the transform.\<close>

lemma roundtrip_other_fields:
  assumes n: "name p \<noteq> []" and l: "truthy (locator_scale p)"
    and u: "parent_uuid_ok E p" "parent_uuid p \<noteq> Some []"
    and m: "metadata p \<noteq> Some []"
    and t: "offset_transform p \<noteq> None \<longrightarrow> transform p \<noteq> None"
  shows "\<exists>q. read_data_from_dict E (Proxy_init E fresh no_args)
                (get_proxy_as_dict p False True True) = Returned_self q
           \<and> name q = name p \<and> parent_uuid q = parent_uuid p
           \<and> locator_scale q = locator_scale p \<and> transform q = transform p
           \<and> attr_dict q = attr_dict p \<and> metadata q = metadata p
           \<and> offset_transform q = (case offset_transform p of None \<Rightarrow> None
                                   | Some t' \<Rightarrow> transform p)"
proof -
  obtain d where d: "get_proxy_as_dict p False True True = PDict d"
    using get_proxy_as_dict_is_dict by blast
  note e = serialized_entries [OF d]
  let ?q0 = "Proxy_defaults E fresh"
  define s3 where "s3 = read_head E ?q0 d"
  have s3: "name s3 = name p" "parent_uuid s3 = parent_uuid p" "locator_scale s3 = locator_scale p"
    "transform s3 = None" "offset_transform s3 = None" "attr_dict s3 = []" "metadata s3 = None"
    using n l u
    by (auto simp: s3_def read_head_def Let_def e set_name_def set_parent_uuid_def
        set_locator_scale_def Proxy_defaults_def parent_uuid_ok_def split: option.splits)
  define s4 where "s4 = s3\<lparr>transform := transform p\<rparr>"
  have b4: "read_transform_block s3 (dict_get d ''transform'') = Inr s4"
    using s3
    by (cases "transform p")
       (simp_all add: read_transform_block_def e s4_def truthy_transform_dict Let_def
          initialize_transform_def set_transform_from_dict_get)
  define s5 where "s5 = s4\<lparr>offset_transform :=
      (case offset_transform p of None \<Rightarrow> None | Some t' \<Rightarrow> transform p)\<rparr>"
  have b5: "read_offset_block s4 (dict_get d ''offsetTransform'') (dict_get d ''transform'') = Inr s5"
  proof (cases "offset_transform p")
    case None
    then show ?thesis
      by (simp add: read_offset_block_def e s5_def s4_def s3)
  next
    case (Some o)
    with t obtain tr where tr: "transform p = Some tr" by auto
    show ?thesis
      using Some tr s3
      by (simp add: read_offset_block_def e s5_def s4_def truthy_transform_dict Let_def
          initialize_offset_transform_def set_transform_from_dict_get)
  qed
  have r: "read_data_from_dict E ?q0 (PDict d) = Returned_self (read_tail E s5 d)"
    by (simp add: read_data_from_dict_def Let_def s3_def [symmetric] b4 b5)
  have tail: "read_tail E s5 d = s5\<lparr>attr_dict := attr_dict p, metadata := metadata p\<rparr>"
    using m s3
    by (cases "metadata p")
       (auto simp: read_tail_def Let_def e set_attr_dict_def set_metadata_dict_def s5_def s4_def)
  show ?thesis
    unfolding Proxy_init_no_args d r tail
    by (simp add: s5_def s4_def s3)
qed


text \<open>
  Claim C1. Serializing a proxy with \<^verbatim>\<open>get_proxy_as_dict()\<close> and reading the dictionary into
  a fresh proxy is to reproduce the offset transform. For a proxy whose transform has
  position \<open>(0, 5, 0)\<close> and whose offset transform has position \<open>(1, 2, 3)\<close> the dictionary
  holds both blocks, the reader returns \<^verbatim>\<open>self\<close>, and the offset transform of the new proxy is
  the transform of the old one: the reader passes the \<^verbatim>\<open>transform\<close> block to the offset.
\<close>

theorem roundtrip_offset_transform_lost:
  "offset_transform moved_proxy = Some hip_offset
   \<and> dict_get (case get_proxy_as_dict moved_proxy False True True of PDict d \<Rightarrow> d | _ \<Rightarrow> [])
        ''offsetTransform'' = get_transform_as_dict hip_offset
   \<and> \<not> has_raised (read_data_from_dict example_env (Proxy_init example_env ''a2'' no_args)
        (get_proxy_as_dict moved_proxy False True True))
   \<and> offset_transform (state_of (read_data_from_dict example_env
        (Proxy_init example_env ''a2'' no_args)
        (get_proxy_as_dict moved_proxy False True True))) = Some hip_transform
   \<and> hip_transform \<noteq> hip_offset"
  by (simp add: moved_proxy_def hip_transform_def hip_offset_def Proxy_init_def
      Proxy_defaults_def no_args_def example_env_def Let_def set_transform_def
      set_offset_transform_def get_proxy_as_dict_def read_data_from_dict_def dict_get_def
      get_transform_as_dict_def vector3_as_list_def read_transform_block_def
      read_offset_block_def read_tail_def read_head_def initialize_transform_def
      initialize_offset_transform_def set_name_def set_locator_scale_def)

section \<open>Properties of the project dictionary\<close>

lemma keys_foldl_dict_set:
  "fst ` set (foldl (\<lambda>d m. dict_set d (f m) (g m)) d0 ms) = fst ` set d0 \<union> f ` set ms"
  by (induction ms arbitrary: d0) (auto simp: keys_dict_set)

lemma distinct_foldl_dict_set:
  "distinct (map fst d0) \<Longrightarrow> distinct (map fst (foldl (\<lambda>d m. dict_set d (f m) (g m)) d0 ms))"
  by (induction ms arbitrary: d0) (auto simp: distinct_dict_set)

lemma length_foldl_dict_set:
  "length (foldl (\<lambda>d m. dict_set d (f m) (g m)) [] ms) = card (f ` set ms)"
proof -
  let ?d = "foldl (\<lambda>d m. dict_set d (f m) (g m)) [] ms"
  have "distinct (map fst ?d)" by (rule distinct_foldl_dict_set) simp
  then have "card (set (map fst ?d)) = length (map fst ?d)" by (rule distinct_card)
  moreover have "set (map fst ?d) = f ` set ms"
    using keys_foldl_dict_set [of f g "[]" ms] by simp
  ultimately show ?thesis by simp
qed

lemma map_of_foldl_dict_set_last:
  "m \<in> set ms \<Longrightarrow>
   map_of (foldl (\<lambda>d m. dict_set d (f m) (g m)) d0 ms) (f m) =
     Some (g (last (filter (\<lambda>m'. f m' = f m) ms)))"
proof (induction ms rule: rev_induct)
  case Nil
  then show ?case by simp
next
  case (snoc x xs)
  show ?case
  proof (cases "f x = f m")
    case True
    then show ?thesis by (simp add: map_of_dict_set)
  next
    case False
    with snoc.prems have "m \<in> set xs" by auto
    with snoc.IH False show ?thesis by (simp add: map_of_dict_set)
  qed
qed

lemma card_image_less_if_not_distinct:
  "\<not> distinct (map f ms) \<Longrightarrow> card (f ` set ms) < length ms"
proof -
  assume nd: "\<not> distinct (map f ms)"
  have "card (set (map f ms)) \<le> length (map f ms)" by (rule card_length)
  moreover have "card (set (map f ms)) \<noteq> length (map f ms)"
    using nd card_distinct by blast
  ultimately show ?thesis by simp
qed

lemma read_modules_loop_length:
  "length (project_modules (state_of (fst (read_modules_loop R E P n d))))
     \<le> length (project_modules P) + length d"
proof (induction d arbitrary: P n)
  case Nil
  then show ?case by simp
next
  case (Cons entry rest)
  obtain r n' where e: "read_module_entry R E n entry = (r, n')" by (cases "read_module_entry R E n entry")
  show ?case
  proof (cases r)
    case (Returned_self m)
    with e Cons.IH [of "P\<lparr>project_modules := project_modules P @ [m]\<rparr>" n'] show ?thesis by simp
  next
    case (Returned_None m)
    with e Cons.IH [of "P\<lparr>project_modules := project_modules P @ [m]\<rparr>" n'] show ?thesis by simp
  next
    case (Raised err m)
    with e show ?thesis by simp
  qed
qed

lemma read_modules_from_dict_length:
  "length (project_modules (state_of (fst (read_modules_from_dict R E P n (PDict d))))) \<le> length d
   \<or> d = []"
  using read_modules_loop_length [of R E "P\<lparr>project_modules := []\<rparr>" n d]
  by (simp add: read_modules_from_dict_def)

lemma project_modules_read_head: "project_modules (project_read_head P d) = project_modules P"
  by (simp add: project_read_head_def Let_def RigProject_set_name_def RigProject_set_prefix_def
      split: pyval.splits)

lemma project_modules_read_tail: "project_modules (project_read_tail P d) = project_modules P"
  by (simp add: project_read_tail_def Let_def RigProject_set_metadata_dict_def split: pyval.splits)

lemma project_read_length:
  "length (project_modules (state_of (fst (RigProject_read_data_from_dict R E P n (PDict d)))))
     \<le> (case dict_get d ''modules'' of PDict ms \<Rightarrow> length ms | _ \<Rightarrow> 0)"
proof (cases "dict_get d ''modules''")
  case (PDict ms)
  let ?s2 = "project_read_head (P\<lparr>project_modules := [], project_metadata := None\<rparr>) d"
  show ?thesis
  proof (cases "ms = []")
    case True
    with PDict show ?thesis
      by (simp add: RigProject_read_data_from_dict_def Let_def project_modules_read_tail
          project_modules_read_head)
  next
    case False
    obtain r n' where rm: "read_modules_from_dict R E ?s2 n (PDict ms) = (r, n')"
      by (cases "read_modules_from_dict R E ?s2 n (PDict ms)")
    have len: "length (project_modules (state_of r)) \<le> length ms"
      using read_modules_from_dict_length [of R E ?s2 n ms] False rm by simp
    show ?thesis
      using PDict False rm len
      by (cases r)
         (simp_all add: RigProject_read_data_from_dict_def Let_def project_modules_read_tail)
  qed
qed (simp_all add: RigProject_read_data_from_dict_def Let_def project_modules_read_tail
      project_modules_read_head)

lemma modules_entry_of_project_dict:
  "get_project_as_dict R P = PDict d \<Longrightarrow>
   dict_get d ''modules'' = PDict (project_modules_dict R (project_modules P))"
  by (auto simp: get_project_as_dict_def Let_def dict_get_def split: option.splits if_splits)

lemma get_project_as_dict_is_dict: "\<exists>d. get_project_as_dict R P = PDict d"
  by (simp add: get_project_as_dict_def Let_def)


lemma distinct_class_names:
  "distinct (map (\<lambda>m. get_module_class_name m True) ms) \<Longrightarrow> distinct (map module_class ms)"
proof -
  assume a: "distinct (map (\<lambda>m. get_module_class_name m True) ms)"
  have "map (\<lambda>m. get_module_class_name m True) ms
        = map (\<lambda>s. remove_prefix s ''Module'') (map module_class ms)"
    by (simp add: get_module_class_name_def)
  with a show ?thesis by (simp only: distinct_map)
qed

text \<open>
  Claim C3. \<^verbatim>\<open>get_project_as_dict\<close> stores the modules in a dictionary keyed by the class
  name without the prefix \<^verbatim>\<open>Module\<close>: the entry of a module's key holds the description of the
  last module of the list with that key, and the dictionary has one entry for each key that
  occurs. When two modules of the project have the same class name, reading the serialized
  project back yields fewer modules than the project has, so the round trip preserves the
  module list only when the class names are distinct.
\<close>

theorem project_modules_keyed_by_class:
  "(case get_project_as_dict R P of PDict d \<Rightarrow> dict_get d ''modules'' | _ \<Rightarrow> PNone)
     = PDict (project_modules_dict R (project_modules P))
   \<and> (\<forall>m \<in> set (project_modules P).
        dict_get (project_modules_dict R (project_modules P)) (get_module_class_name m True)
          = module_get_module_as_dict R
              (last (filter (\<lambda>m'. get_module_class_name m' True = get_module_class_name m True)
                       (project_modules P))))
   \<and> length (project_modules_dict R (project_modules P))
       = card ((\<lambda>m. get_module_class_name m True) ` set (project_modules P))
   \<and> (\<not> distinct (map module_class (project_modules P)) \<longrightarrow>
        length (project_modules (state_of (fst
          (RigProject_read_data_from_dict R E P0 n (get_project_as_dict R P)))))
          < length (project_modules P))"
proof -
  let ?ms = "project_modules P"
  let ?key = "\<lambda>m. get_module_class_name m True"
  obtain d where d: "get_project_as_dict R P = PDict d"
    using get_project_as_dict_is_dict by blast
  have e: "dict_get d ''modules'' = PDict (project_modules_dict R ?ms)"
    by (rule modules_entry_of_project_dict [OF d])
  have c1: "(case get_project_as_dict R P of PDict d \<Rightarrow> dict_get d ''modules'' | _ \<Rightarrow> PNone)
     = PDict (project_modules_dict R ?ms)"
    by (simp add: d e)
  have c2: "\<forall>m \<in> set ?ms.
        dict_get (project_modules_dict R ?ms) (?key m)
          = module_get_module_as_dict R (last (filter (\<lambda>m'. ?key m' = ?key m) ?ms))"
  proof
    fix m
    assume "m \<in> set ?ms"
    then have "map_of (project_modules_dict R ?ms) (?key m)
        = Some (module_get_module_as_dict R (last (filter (\<lambda>m'. ?key m' = ?key m) ?ms)))"
      unfolding project_modules_dict_def by (rule map_of_foldl_dict_set_last)
    then show "dict_get (project_modules_dict R ?ms) (?key m)
          = module_get_module_as_dict R (last (filter (\<lambda>m'. ?key m' = ?key m) ?ms))"
      by (simp add: dict_get_def)
  qed
  have c3: "length (project_modules_dict R ?ms) = card (?key ` set ?ms)"
    by (simp add: project_modules_dict_def length_foldl_dict_set)
  have c4: "length (project_modules (state_of (fst
          (RigProject_read_data_from_dict R E P0 n (get_project_as_dict R P))))) < length ?ms"
    if nd: "\<not> distinct (map module_class ?ms)"
  proof -
    from nd have "\<not> distinct (map ?key ?ms)"
      using distinct_class_names by blast
    then have "card (?key ` set ?ms) < length ?ms"
      by (rule card_image_less_if_not_distinct)
    moreover have "length (project_modules (state_of (fst
          (RigProject_read_data_from_dict R E P0 n (PDict d)))))
        \<le> length (project_modules_dict R ?ms)"
      using project_read_length [of R E P0 n d] by (simp add: e)
    ultimately show ?thesis by (simp add: d c3)
  qed
  show ?thesis using c1 c2 c3 c4 by blast
qed

theorem project_modules_keyed_by_class_witness:
  "module_b \<in> set (project_modules twin_project)
   \<and> \<not> distinct (map module_class (project_modules twin_project))
   \<and> dict_get (project_modules_dict example_registry (project_modules twin_project)) ''Generic''
       = ModuleGeneric_get_module_as_dict module_b False True
   \<and> length (project_modules_dict example_registry (project_modules twin_project)) = 1
   \<and> length (project_modules (state_of (fst
        (RigProject_read_data_from_dict example_registry example_env RigProject_init 0
           (get_project_as_dict example_registry twin_project))))) < 2"
proof -
  have ms: "project_modules twin_project = [module_a, module_b]"
    by (simp add: twin_project_def)
  have cls: "module_class module_a = ''ModuleGeneric''" "module_class module_b = ''ModuleGeneric''"
    by (simp_all add: module_a_def module_b_def ModuleGeneric_set_name_def ModuleGeneric_init_def)
  have key: "get_module_class_name module_a True = ''Generic''"
    "get_module_class_name module_b True = ''Generic''"
    by (simp_all add: get_module_class_name_def remove_prefix_def startswith_def cls)
  show ?thesis
    using project_modules_keyed_by_class
      [of example_registry twin_project example_env RigProject_init 0]
    by (simp add: ms cls key module_get_module_as_dict_def)
qed

text \<open>
  Claim C10. \<^verbatim>\<open>RigProject.read_data_from_dict\<close> clears the modules and the metadata before
  it looks at its argument: for a truthy argument that is not a dictionary it returns
  \<^verbatim>\<open>None\<close> and leaves the project with no modules and no metadata, whatever it held before.
\<close>

theorem project_read_rejects_after_clearing:
  "truthy v \<Longrightarrow> \<not> isinstance_dict v \<Longrightarrow>
   RigProject_read_data_from_dict R E P n v
     = (Returned_None (P\<lparr>project_modules := [], project_metadata := None\<rparr>), n)"
  by (simp add: RigProject_read_data_from_dict_def)

theorem project_read_rejects_after_clearing_witness:
  "truthy (PList [PInt 1]) \<and> \<not> isinstance_dict (PList [PInt 1])
   \<and> project_modules twin_project = [module_a, module_b]
   \<and> project_metadata twin_project = Some [(''author'', PStr ''me'')]
   \<and> RigProject_read_data_from_dict example_registry example_env twin_project 0 (PList [PInt 1])
       = (Returned_None (RigProject_init\<lparr>project_modules := [], project_metadata := None\<rparr>), 0)"
  using project_read_rejects_after_clearing
    [of "PList [PInt 1]" example_registry example_env twin_project 0]
  by (simp add: twin_project_def)


section \<open>Properties of the module reader\<close>

lemma read_transform_block_sized:
  "sized_or_falsy v \<Longrightarrow> \<exists>p'. read_transform_block p v = Inr p'"
  by (auto simp: sized_or_falsy_def read_transform_block_def Let_def split: sum.splits)

lemma read_offset_block_sized:
  "sized_or_falsy v \<Longrightarrow> \<exists>p'. read_offset_block p v w = Inr p'"
  by (auto simp: sized_or_falsy_def read_offset_block_def Let_def split: sum.splits)

lemma read_data_from_dict_ok:
  assumes "proxy_description_ok v"
  shows "\<exists>p'. read_data_from_dict E p v = Returned_self p'"
proof -
  from assms obtain d where v: "v = PDict d"
    and t: "sized_or_falsy (dict_get d ''transform'')"
    and ot: "sized_or_falsy (dict_get d ''offsetTransform'')"
    by (auto simp: proxy_description_ok_def split: pyval.splits)
  obtain s4 where s4: "read_transform_block (read_head E p d) (dict_get d ''transform'') = Inr s4"
    using read_transform_block_sized [OF t] by blast
  obtain s5 where s5: "read_offset_block s4 (dict_get d ''offsetTransform'') (dict_get d ''transform'') = Inr s5"
    using read_offset_block_sized [OF ot] by blast
  show ?thesis
    by (simp add: v read_data_from_dict_def Let_def s4 s5)
qed

lemma read_proxies_loop_ok:
  "list_all (\<lambda>entry. proxy_description_ok (snd entry)) ps \<Longrightarrow>
   read_proxies_loop E self n ps =
     (Returned_None
        (self\<lparr>module_proxies := module_proxies self @ map (read_proxy_entry E) (enumerate n ps)\<rparr>),
      n + length ps)"
proof (induction ps arbitrary: self n)
  case Nil
  then show ?case by simp
next
  case (Cons entry rest)
  obtain k desc where entry: "entry = (k, desc)" by (cases entry)
  from Cons.prems entry have ok: "proxy_description_ok desc"
    and rest: "list_all (\<lambda>entry. proxy_description_ok (snd entry)) rest" by simp_all
  let ?p1 = "set_uuid E (Proxy_init E (generate_uuid E n) no_args) (PStr k)"
  obtain p2 where p2: "read_data_from_dict E ?p1 desc = Returned_self p2"
    using read_data_from_dict_ok [OF ok] by blast
  have e: "read_proxy_entry E (n, k, desc) = p2"
    by (simp add: read_proxy_entry_def p2)
  show ?case
    using Cons.IH [OF rest, of "self\<lparr>module_proxies := module_proxies self @ [p2]\<rparr>" "Suc n"]
    by (simp add: entry Let_def p2 e enumerate_simps)
qed

lemma module_read_head_init:
  "module_read_head E ModuleGeneric_init d =
     ModuleGeneric_init
       \<lparr>module_name := (case dict_get d ''name'' of
                       PStr s \<Rightarrow> if s \<noteq> [] then Some s else None | _ \<Rightarrow> None),
        module_prefix := (case dict_get d ''prefix'' of
                         PStr s \<Rightarrow> if s \<noteq> [] then Some s else None | _ \<Rightarrow> None),
        module_parent_uuid := (if accepted_uuid E (dict_get d ''parent'')
                            then uuid_string (dict_get d ''parent'') else None)\<rparr>"
proof -
  have n: "(if truthy v then ModuleGeneric_set_name m v else m)
      = (case v of PStr s \<Rightarrow> if s \<noteq> [] then m\<lparr>module_name := Some s\<rparr> else m | _ \<Rightarrow> m)" for v m
    by (cases v) (simp_all add: ModuleGeneric_set_name_def)
  have p: "(if truthy v then ModuleGeneric_set_prefix m v else m)
      = (case v of PStr s \<Rightarrow> if s \<noteq> [] then m\<lparr>module_prefix := Some s\<rparr> else m | _ \<Rightarrow> m)" for v m
    by (cases v) (simp_all add: ModuleGeneric_set_prefix_def)
  have u: "(if truthy v then ModuleGeneric_set_parent_uuid E m v else m)
      = (if accepted_uuid E v then m\<lparr>module_parent_uuid := uuid_string v\<rparr> else m)" for v m
    by (cases v) (simp_all add: ModuleGeneric_set_parent_uuid_def accepted_uuid_def uuid_string_def)
  show ?thesis
    unfolding module_read_head_def Let_def n p u
    by (cases "dict_get d ''name''"; cases "dict_get d ''prefix''")
       (simp_all add: ModuleGeneric_init_def)
qed

lemma module_read_tail_eq:
  "module_metadata m = None \<Longrightarrow> module_active m = True \<Longrightarrow>
   module_read_tail m d =
     m\<lparr>module_active := (case dict_get d ''active'' of PBool b \<Rightarrow> b | _ \<Rightarrow> True),
       module_metadata := (case dict_get d ''metadata'' of
                           PDict md \<Rightarrow> if md \<noteq> [] then Some md else None
                         | _ \<Rightarrow> None)\<rparr>"
  by (cases "dict_get d ''active''"; cases "dict_get d ''metadata''")
     (simp_all add: module_read_tail_def Let_def ModuleGeneric_set_active_state_def
        ModuleGeneric_set_metadata_dict_def)

lemma generic_read_ok:
  assumes "module_description_ok (PDict d)"
  shows "ModuleGeneric_read_data_from_dict E ModuleGeneric_init n (PDict d) =
           (Returned_self (generic_module_of E n d), n + proxies_count d)"
proof -
  have h: "module_read_head E ModuleGeneric_init d =
     \<lparr>module_class = ''ModuleGeneric'',
      module_name = (case dict_get d ''name'' of
                       PStr s \<Rightarrow> if s \<noteq> [] then Some s else None | _ \<Rightarrow> None),
      module_prefix = (case dict_get d ''prefix'' of
                         PStr s \<Rightarrow> if s \<noteq> [] then Some s else None | _ \<Rightarrow> None),
      module_proxies = [],
      module_parent_uuid = (if accepted_uuid E (dict_get d ''parent'')
                            then uuid_string (dict_get d ''parent'') else None),
      module_metadata = None,
      module_active = True\<rparr>"
    unfolding module_read_head_init by (simp add: ModuleGeneric_init_def)
  show ?thesis
  proof (cases "dict_get d ''proxies''")
    case (PDict ps)
    with assms have ok: "list_all (\<lambda>entry. proxy_description_ok (snd entry)) ps"
      by (simp add: module_description_ok_def)
    show ?thesis
    proof (cases "ps = []")
      case True
      with PDict show ?thesis
        by (simp add: ModuleGeneric_read_data_from_dict_def Let_def h
            module_read_tail_eq generic_module_of_def proxies_count_def enumerate_simps)
    next
      case False
      with PDict show ?thesis
        by (simp add: ModuleGeneric_read_data_from_dict_def Let_def h
            module_read_tail_eq generic_module_of_def proxies_count_def
            read_proxies_from_dict_def read_proxies_loop_ok [OF ok])
    qed
  qed (simp_all add: ModuleGeneric_read_data_from_dict_def Let_def h
        module_read_tail_eq generic_module_of_def proxies_count_def)
qed


text \<open>For every description in the persisted format and every class name that the registry
  does not list, the entry yields a \<^verbatim>\<open>ModuleGeneric\<close> and nothing is raised: the module
  fields are those of the description and there is one proxy for each entry of
  \<^verbatim>\<open>proxies\<close>.\<close>

lemma unknown_class_loads:
  assumes "available_modules R (registered_class_name class_name) = None"
    and "module_description_ok (PDict d)"
  shows "\<exists>m. read_module_entry R E n (class_name, PDict d) = (Returned_self m, n + proxies_count d)
           \<and> read_modules_from_dict R E P n (PDict [(class_name, PDict d)])
               = (Returned_None (P\<lparr>project_modules := [m]\<rparr>), n + proxies_count d)
           \<and> module_class m = ''ModuleGeneric''
           \<and> module_name m = (case dict_get d ''name'' of
                                 PStr s \<Rightarrow> if s \<noteq> [] then Some s else None | _ \<Rightarrow> None)
           \<and> module_prefix m = (case dict_get d ''prefix'' of
                                   PStr s \<Rightarrow> if s \<noteq> [] then Some s else None | _ \<Rightarrow> None)
           \<and> module_parent_uuid m = (if accepted_uuid E (dict_get d ''parent'')
                                      then uuid_string (dict_get d ''parent'') else None)
           \<and> module_metadata m = (case dict_get d ''metadata'' of
                                     PDict md \<Rightarrow> if md \<noteq> [] then Some md else None | _ \<Rightarrow> None)
           \<and> module_active m = (case dict_get d ''active'' of PBool b \<Rightarrow> b | _ \<Rightarrow> True)
           \<and> length (module_proxies m) = proxies_count d"
proof -
  have "read_module_entry R E n (class_name, PDict d)
          = ModuleGeneric_read_data_from_dict E ModuleGeneric_init n (PDict d)"
    using assms(1)
    by (simp add: read_module_entry_def module_read_data_from_dict_def ModuleGeneric_init_def)
  then have e: "read_module_entry R E n (class_name, PDict d)
           = (Returned_self (generic_module_of E n d), n + proxies_count d)"
    by (simp add: generic_read_ok [OF assms(2)])
  have l: "length (module_proxies (generic_module_of E n d)) = proxies_count d"
    by (cases "dict_get d ''proxies''")
       (simp_all add: generic_module_of_def proxies_count_def enumerate_simps)
  have f: "read_modules_from_dict R E P n (PDict [(class_name, PDict d)])
      = (Returned_None (P\<lparr>project_modules := [generic_module_of E n d]\<rparr>), n + proxies_count d)"
    using e by (simp add: read_modules_from_dict_def)
  show ?thesis
    by (rule exI [of _ "generic_module_of E n d"]) (simp add: e f l, simp add: generic_module_of_def)
qed

text \<open>
  Claim C8. The registry does not list \<^verbatim>\<open>ModuleTail\<close>, so \<^verbatim>\<open>read_modules_from_dict\<close>
  builds a \<^verbatim>\<open>ModuleGeneric\<close> for the entry \<^verbatim>\<open>Tail\<close>, nothing is raised, and the module has
  the name, prefix, parent, active flag and metadata of the description and one proxy. The
  proxy has the name, the identifier, the locator scale and the transform of its description.
  Its offset transform is to be the \<^verbatim>\<open>offsetTransform\<close> block of the description, with
  position \<open>(1, 2, 3)\<close>, and is the \<^verbatim>\<open>transform\<close> block, with position \<open>(0, 5, 0)\<close>:
  \<^verbatim>\<open>Proxy.read_data_from_dict\<close> passes the \<^verbatim>\<open>transform\<close> block to the offset.
\<close>

theorem unknown_class_proxy_offset_misread:
  "available_modules example_registry (registered_class_name ''Tail'') = None
   \<and> (let loaded = read_modules_from_dict example_registry example_env RigProject_init 0
                     (PDict [(''Tail'', PDict tail_description)]);
          ms = project_modules (state_of (fst loaded));
          ps = module_proxies (hd ms)
      in \<not> has_raised (fst loaded)
       \<and> map module_class ms = [''ModuleGeneric'']
       \<and> map module_name ms = [Some ''tail'']
       \<and> map module_prefix ms = [Some ''left'']
       \<and> map module_parent_uuid ms = [Some ''beef'']
       \<and> map module_active ms = [False]
       \<and> map module_metadata ms = [Some [(''side'', PStr ''left'')]]
       \<and> map name ps = [''tip'']
       \<and> map uuid ps = [''c0de'']
       \<and> map parent_uuid ps = [None]
       \<and> map locator_scale ps = [PInt 2]
       \<and> map attr_dict ps = [[(''radius'', PInt 3)]]
       \<and> map metadata ps = [Some [(''metaType'', PStr ''tip'')]]
       \<and> map transform ps = [Some hip_transform]
       \<and> dict_get tip_description ''transform'' = get_transform_as_dict hip_transform
       \<and> dict_get tip_description ''offsetTransform'' = get_transform_as_dict hip_offset
       \<and> map offset_transform ps = [Some hip_transform]
       \<and> hip_transform \<noteq> hip_offset)"
proof -
  define tip where "tip =
     \<lparr>name = ''tip'', transform = Some hip_transform, offset_transform = Some hip_transform,
      curve = \<lparr>curve_name = ''tip'', curve_valid = True\<rparr>, uuid = ''c0de'',
      parent_uuid = None, locator_scale = PInt 2, attr_dict = [(''radius'', PInt 3)],
      metadata = Some [(''metaType'', PStr ''tip'')]\<rparr>"
  have unknown: "available_modules example_registry (registered_class_name ''Tail'') = None"
    by (simp add: example_registry_def registered_class_name_def startswith_def)
  have tip: "read_data_from_dict example_env
      (set_uuid example_env (Proxy_init example_env (generate_uuid example_env 0) no_args)
         (PStr ''c0de''))
      (PDict tip_description)
      = Returned_self tip"
    by (simp add: tip_def tip_description_def set_attr_dict_def set_metadata_dict_def read_data_from_dict_def read_head_def read_tail_def
        read_transform_block_def read_offset_block_def dict_get_def Let_def set_uuid_def
        set_name_def set_locator_scale_def Proxy_init_def Proxy_defaults_def no_args_def
        example_env_def is_hex_def hip_transform_def hip_offset_def get_transform_as_dict_def
        vector3_as_list_def initialize_transform_def initialize_offset_transform_def
        Transform_init_def)
  have proxies: "read_proxies_from_dict example_env s 0 (PDict [(''c0de'', PDict tip_description)])
      = (Returned_None (s\<lparr>module_proxies := [tip]\<rparr>), 1)" for s
    by (simp add: read_proxies_from_dict_def Let_def tip)
  have short: "is_short_uuid_valid example_env ''beef''"
    by (simp add: example_env_def is_hex_def)
  have entry: "read_module_entry example_registry example_env 0 (''Tail'', PDict tail_description)
      = (Returned_self
          \<lparr>module_class = ''ModuleGeneric'', module_name = Some ''tail'',
           module_prefix = Some ''left'',
           module_proxies = [tip],
           module_parent_uuid = Some ''beef'',
           module_metadata = Some [(''side'', PStr ''left'')],
           module_active = False\<rparr>, 1)"
    by (simp add: read_module_entry_def unknown module_read_data_from_dict_def
        ModuleGeneric_read_data_from_dict_def module_read_head_def module_read_tail_def
        tail_description_def dict_get_def Let_def proxies ModuleGeneric_init_def
        ModuleGeneric_set_name_def ModuleGeneric_set_prefix_def ModuleGeneric_set_parent_uuid_def
        ModuleGeneric_set_active_state_def ModuleGeneric_set_metadata_dict_def short)
  have blocks: "dict_get tip_description ''transform'' = get_transform_as_dict hip_transform"
    "dict_get tip_description ''offsetTransform'' = get_transform_as_dict hip_offset"
    by (simp_all add: tip_description_def dict_get_def)
  have differ: "hip_transform \<noteq> hip_offset"
    by (simp add: hip_transform_def hip_offset_def)
  show ?thesis
    unfolding Let_def
    by (simp add: unknown read_modules_from_dict_def entry tip_def blocks differ)
qed

theorem unknown_class_proxy_offset_misread_witness:
  "truthy (PDict [(''Tail'', PDict tail_description)])
   \<and> isinstance_dict (PDict [(''Tail'', PDict tail_description)])
   \<and> map offset_transform
         (module_proxies (hd (project_modules (state_of (fst
            (read_modules_from_dict example_registry example_env RigProject_init 0
               (PDict [(''Tail'', PDict tail_description)])))))))
       = [Some hip_transform]
   \<and> dict_get tip_description ''offsetTransform'' = get_transform_as_dict hip_offset
   \<and> hip_transform \<noteq> hip_offset"
  using unknown_class_proxy_offset_misread by (simp add: Let_def)


section \<open>Properties of the spine module\<close>

lemma uuid_set_name: "uuid (set_name p v) = uuid p"
  by (cases v) (simp_all add: set_name_def)

lemma uuid_set_locator_scale: "uuid (set_locator_scale p v) = uuid p"
  by (simp add: set_locator_scale_def)

lemma uuid_add_color: "uuid (add_color p v) = uuid p"
  by (simp add: add_color_def split: option.splits)

lemma uuid_set_meta_type: "uuid (set_meta_type E p v) = uuid p"
  by (simp add: set_meta_type_def add_to_metadata_def)

lemma uuid_add_meta_parent: "uuid (add_meta_parent E p a) = uuid p"
  by (simp add: add_meta_parent_def Let_def split: arg.splits pyval.splits)

lemma uuid_set_parent_uuid: "uuid (set_parent_uuid E p v) = uuid p"
  by (cases v) (simp_all add: set_parent_uuid_def)

lemma uuid_Proxy_init_name: "uuid (Proxy_init E fresh (no_args\<lparr>arg_name := v\<rparr>)) = fresh"
  by (simp add: Proxy_init_def Proxy_defaults_def no_args_def Let_def uuid_set_name)

lemma valid_id_accepted: "valid_id E s \<Longrightarrow> accepted_id E s"
  by (simp add: valid_id_def accepted_id_def)

lemma new_spine_ids:
  assumes "accepted_id E parent"
  shows "uuid (new_spine E fresh parent num) = fresh"
    and "parent_uuid (new_spine E fresh parent num) = Some parent"
  using assms
  by (simp_all add: new_spine_def Let_def uuid_set_parent_uuid uuid_add_meta_parent
      uuid_set_meta_type uuid_add_color uuid_set_locator_scale uuid_Proxy_init_name
      parent_uuid_set_parent_uuid accepted_uuid_def accepted_id_def)

lemma create_spines_length:
  "length (fst (create_spines E n parent num count)) = count
   \<and> snd (create_spines E n parent num count) = n + count"
proof (induction count arbitrary: n parent num)
  case 0
  then show ?case by simp
next
  case (Suc count)
  let ?s = "new_spine E (generate_uuid E n) parent num"
  obtain rest n' where r: "create_spines E (Suc n) (uuid ?s) (Suc num) count = (rest, n')"
    by (cases "create_spines E (Suc n) (uuid ?s) (Suc num) count")
  from Suc.IH [of "Suc n" "uuid ?s" "Suc num"] r
  have "length rest = count" "n' = Suc n + count" by simp_all
  then show ?case
    using r by (simp add: Let_def)
qed

lemma create_spines_props:
  assumes "generator_ok E" and "accepted_id E parent"
  shows "chained parent (fst (create_spines E n parent num count))
       \<and> (\<forall>s \<in> set (fst (create_spines E n parent num count)). valid_id E (uuid s))"
  using assms(2)
proof (induction count arbitrary: n parent num)
  case 0
  then show ?case by simp
next
  case (Suc count)
  let ?s = "new_spine E (generate_uuid E n) parent num"
  have u: "uuid ?s = generate_uuid E n" and p: "parent_uuid ?s = Some parent"
    using new_spine_ids [OF Suc.prems] by simp_all
  have v: "valid_id E (uuid ?s)"
    using assms(1) by (simp add: u valid_id_def generator_ok_def)
  obtain rest n' where r: "create_spines E (Suc n) (uuid ?s) (Suc num) count = (rest, n')"
    by (cases "create_spines E (Suc n) (uuid ?s) (Suc num) count")
  from Suc.IH [OF valid_id_accepted [OF v], of "Suc n" "Suc num"] r
  have "chained (uuid ?s) rest" "\<forall>s \<in> set rest. valid_id E (uuid s)"
    by simp_all
  then show ?case
    using r p v by (simp add: Let_def)
qed

lemma chained_append:
  "chained h (xs @ ys) = (chained h xs \<and> chained (last_uuid h xs) ys)"
  by (induction xs arbitrary: h) (auto simp: last_uuid_def)

lemma chained_take: "chained h xs \<Longrightarrow> chained h (take k xs)"
proof (induction xs arbitrary: h k)
  case Nil
  then show ?case by simp
next
  case (Cons x xs)
  then show ?case by (cases k) simp_all
qed

lemma chained_map:
  "chained h xs \<Longrightarrow> xs \<noteq> [] \<Longrightarrow>
   map parent_uuid xs = map Some (h # map uuid (butlast xs))"
proof (induction xs arbitrary: h)
  case Nil
  then show ?case by simp
next
  case (Cons x xs)
  then show ?case by (cases "xs = []") simp_all
qed

lemma meta_parent_after_add:
  "is_uuid_valid E u \<Longrightarrow> get_meta_parent_uuid E (add_meta_parent E c (Val (PStr u))) = PStr u"
  by (simp add: add_meta_parent_def get_meta_parent_uuid_def Let_def initialized_metadata_def
      dict_get_dict_set_same dict_set_not_empty)

lemma slice_to_take: "\<exists>j. slice_to xs k = take j xs"
  by (auto simp: slice_to_def)


lemma set_spine_num_same:
  "int (length (spines m)) = k \<Longrightarrow> set_spine_num E m n k = (m, n)"
  by (simp add: set_spine_num_def Let_def)

lemma set_spine_num_grow:
  assumes "int (length (spines m)) < k"
    and "create_spines E n (last_uuid (uuid (hip m)) (spines m)) (length (spines m))
           (nat (k - int (length (spines m)))) = (new, n')"
  shows "set_spine_num E m n k =
    (refresh_proxies_list
       (m\<lparr>spines := spines m @ new,
           chest := add_meta_parent E (chest m)
                      (Val (PStr (last_uuid (uuid (hip m)) (spines m @ new))))\<rparr>), n')"
  using assms
  by (auto simp: set_spine_num_def Let_def last_uuid_def)

lemma set_spine_num_shrink:
  assumes "int (length (spines m)) > k"
  shows "set_spine_num E m n k =
    (refresh_proxies_list
       (m\<lparr>spines := slice_to (spines m) k,
           chest := add_meta_parent E (chest m)
                      (Val (PStr (last_uuid (uuid (hip m)) (slice_to (spines m) k))))\<rparr>), n)"
  using assms
  by (auto simp: set_spine_num_def Let_def last_uuid_def)

lemma last_uuid_accepted:
  "accepted_id E h \<Longrightarrow> \<forall>s \<in> set xs. valid_id E (uuid s) \<Longrightarrow> accepted_id E (last_uuid h xs)"
  by (simp add: last_uuid_def valid_id_accepted)

lemma spine_chain_refresh:
  "spine_chain E (refresh_proxies_list (m\<lparr>spines := sp, chest := c\<rparr>))
     = (accepted_id E (uuid (hip m)) \<and> (\<forall>s \<in> set sp. valid_id E (uuid s))
        \<and> chained (uuid (hip m)) sp)"
  by (simp add: spine_chain_def refresh_proxies_list_def)

lemma set_spine_num_chain:
  assumes g: "generator_ok E" and inv: "spine_chain E m"
  shows "spine_chain E (fst (set_spine_num E m n k))"
proof -
  from inv have vh: "accepted_id E (uuid (hip m))"
    and vs: "\<forall>s \<in> set (spines m). valid_id E (uuid s)"
    and ch: "chained (uuid (hip m)) (spines m)"
    by (simp_all add: spine_chain_def)
  consider (same) "int (length (spines m)) = k" | (grow) "int (length (spines m)) < k"
    | (shrink) "int (length (spines m)) > k" by linarith
  then show ?thesis
  proof cases
    case same
    then show ?thesis using inv by (simp add: set_spine_num_same)
  next
    case grow
    let ?par = "last_uuid (uuid (hip m)) (spines m)"
    let ?cnt = "nat (k - int (length (spines m)))"
    obtain new n' where c: "create_spines E n ?par (length (spines m)) ?cnt = (new, n')"
      by (cases "create_spines E n ?par (length (spines m)) ?cnt")
    have vp: "accepted_id E ?par" by (rule last_uuid_accepted [OF vh vs])
    from create_spines_props [OF g vp, of n "length (spines m)" ?cnt] c
    have cn: "chained ?par new" and vn: "\<forall>s \<in> set new. valid_id E (uuid s)" by simp_all
    show ?thesis
      using vh vs vn ch cn
      by (auto simp: set_spine_num_grow [OF grow c] spine_chain_refresh chained_append)
  next
    case shrink
    obtain j where j: "slice_to (spines m) k = take j (spines m)"
      using slice_to_take by blast
    show ?thesis
      using vh vs ch
      by (auto simp: set_spine_num_shrink [OF shrink] spine_chain_refresh j chained_take
          dest: in_set_takeD)
  qed
qed

lemma set_spine_num_fixed:
  "hip (fst (set_spine_num E m n k)) = hip m"
  "uuid (chest (fst (set_spine_num E m n k))) = uuid (chest m)"
proof -
  consider (same) "int (length (spines m)) = k" | (grow) "int (length (spines m)) < k"
    | (shrink) "int (length (spines m)) > k" by linarith
  then have "hip (fst (set_spine_num E m n k)) = hip m
     \<and> uuid (chest (fst (set_spine_num E m n k))) = uuid (chest m)"
  proof cases
    case same
    then show ?thesis by (simp add: set_spine_num_same)
  next
    case grow
    obtain new n' where c: "create_spines E n (last_uuid (uuid (hip m)) (spines m))
        (length (spines m)) (nat (k - int (length (spines m)))) = (new, n')"
      by (cases "create_spines E n (last_uuid (uuid (hip m)) (spines m))
        (length (spines m)) (nat (k - int (length (spines m))))")
    show ?thesis
      by (simp add: set_spine_num_grow [OF grow c] refresh_proxies_list_def uuid_add_meta_parent)
  next
    case shrink
    then show ?thesis
      by (simp add: set_spine_num_shrink refresh_proxies_list_def uuid_add_meta_parent)
  qed
  then show "hip (fst (set_spine_num E m n k)) = hip m"
    "uuid (chest (fst (set_spine_num E m n k))) = uuid (chest m)" by simp_all
qed

lemma set_spine_num_length:
  assumes "0 \<le> k"
  shows "length (spines (fst (set_spine_num E m n k))) = nat k"
proof -
  consider (same) "int (length (spines m)) = k" | (grow) "int (length (spines m)) < k"
    | (shrink) "int (length (spines m)) > k" by linarith
  then show ?thesis
  proof cases
    case same
    then show ?thesis by (auto simp: set_spine_num_same)
  next
    case grow
    let ?par = "last_uuid (uuid (hip m)) (spines m)"
    let ?cnt = "nat (k - int (length (spines m)))"
    obtain new n' where c: "create_spines E n ?par (length (spines m)) ?cnt = (new, n')"
      by (cases "create_spines E n ?par (length (spines m)) ?cnt")
    from create_spines_length [of E n ?par "length (spines m)" ?cnt] c
    have "length new = ?cnt" by simp
    then show ?thesis
      using grow by (simp add: set_spine_num_grow [OF grow c] refresh_proxies_list_def)
  next
    case shrink
    then show ?thesis
      using assms
      by (simp add: set_spine_num_shrink refresh_proxies_list_def slice_to_def)
  qed
qed

text \<open>A call that adds in-between proxies lists hip, the in-between proxies and chest as the
  proxies of the module and makes the last of the new proxies the meta parent of chest.\<close>

lemma set_spine_num_grow_links:
  assumes g: "generator_ok E" and inv: "spine_chain E m" and lt: "int (length (spines m)) < k"
  shows "module_proxies (fst (set_spine_num E m n k))
           = [hip (fst (set_spine_num E m n k))] @ spines (fst (set_spine_num E m n k))
               @ [chest (fst (set_spine_num E m n k))]"
    and "get_meta_parent_uuid E (chest (fst (set_spine_num E m n k)))
           = PStr (uuid (last (spines (fst (set_spine_num E m n k)))))"
proof -
  from inv have vh: "accepted_id E (uuid (hip m))"
    and vs: "\<forall>s \<in> set (spines m). valid_id E (uuid s)"
    by (simp_all add: spine_chain_def)
  let ?par = "last_uuid (uuid (hip m)) (spines m)"
  let ?cnt = "nat (k - int (length (spines m)))"
  obtain new n' where c: "create_spines E n ?par (length (spines m)) ?cnt = (new, n')"
    by (cases "create_spines E n ?par (length (spines m)) ?cnt")
  have vp: "accepted_id E ?par" by (rule last_uuid_accepted [OF vh vs])
  from create_spines_props [OF g vp, of n "length (spines m)" ?cnt] c
  have vn: "\<forall>s \<in> set new. valid_id E (uuid s)" by simp
  from create_spines_length [of E n ?par "length (spines m)" ?cnt] c lt
  have ne: "new \<noteq> []" by auto
  then have l: "last_uuid (uuid (hip m)) (spines m @ new) = uuid (last new)"
    by (simp add: last_uuid_def)
  have "valid_id E (uuid (last new))" using vn ne by simp
  then have v: "is_uuid_valid E (uuid (last new))" by (simp add: valid_id_def)
  show "module_proxies (fst (set_spine_num E m n k))
           = [hip (fst (set_spine_num E m n k))] @ spines (fst (set_spine_num E m n k))
               @ [chest (fst (set_spine_num E m n k))]"
    by (simp add: set_spine_num_grow [OF lt c] refresh_proxies_list_def)
  show "get_meta_parent_uuid E (chest (fst (set_spine_num E m n k)))
           = PStr (uuid (last (spines (fst (set_spine_num E m n k)))))"
    using ne by (simp add: set_spine_num_grow [OF lt c] refresh_proxies_list_def l
        meta_parent_after_add [OF v])
qed


lemma set_spine_nums_chain:
  "generator_ok E \<Longrightarrow> spine_chain E (fst mn) \<Longrightarrow> spine_chain E (fst (set_spine_nums E mn ks))"
  by (induction ks arbitrary: mn) (simp_all add: set_spine_num_chain)

lemma set_spine_nums_append:
  "set_spine_nums E mn (ks @ ks') = set_spine_nums E (set_spine_nums E mn ks) ks'"
  by (induction ks arbitrary: mn) simp_all

lemma hex_digits_props: "length (hex_digits k n) = k \<and> list_all is_hex (hex_digits k n)"
proof (induction k arbitrary: n)
  case 0
  then show ?case by simp
next
  case (Suc k)
  have "n mod 16 < length ''0123456789abcdef''" by simp
  then have "''0123456789abcdef'' ! (n mod 16) \<in> set ''0123456789abcdef''"
    by (rule nth_mem)
  then have "is_hex (''0123456789abcdef'' ! (n mod 16))"
    unfolding is_hex_def .
  with Suc show ?case by simp
qed

lemma example_generator_ok: "generator_ok example_env"
proof -
  have "hex_digits 32 k \<noteq> []" for k
    using hex_digits_props [of 32 k] by auto
  then show ?thesis
    using hex_digits_props by (simp add: generator_ok_def example_env_def)
qed

text \<open>
  Claim C6. Take a spine module without in-between proxies whose hip identifier is one that
  \<^verbatim>\<open>set_parent_uuid\<close> accepts, and any sequence of \<^verbatim>\<open>set_spine_num\<close> calls on it (the
  constructor makes the first, with the count 3). Then \<^verbatim>\<open>set_spine_num(3)\<close> followed by
  \<^verbatim>\<open>set_spine_num(6)\<close> keeps the identifiers of hip and chest, leaves exactly six in-between
  proxies, the first with hip's identifier as parent and each other one with the identifier
  of the one before it, sets the meta parent of chest to the identifier of the sixth, and
  lists hip, the six and chest as the proxies of the module. The generator is assumed to
  produce non-empty identifiers that the full-form validator accepts.
\<close>

theorem spine_num_three_then_six:
  assumes "generator_ok E" and "spines m = []" and "accepted_id E (uuid (hip m))"
  shows "let before = fst (set_spine_nums E (m, n) ks);
             after = fst (set_spine_nums E (m, n) (ks @ [3, 6]))
         in uuid (hip after) = uuid (hip before)
          \<and> uuid (chest after) = uuid (chest before)
          \<and> length (spines after) = 6
          \<and> map parent_uuid (spines after)
              = map Some (uuid (hip after) # map uuid (butlast (spines after)))
          \<and> get_meta_parent_uuid E (chest after) = PStr (uuid (spines after ! 5))
          \<and> module_proxies after = [hip after] @ spines after @ [chest after]"
proof -
  define mn where "mn = set_spine_nums E (m, n) ks"
  define m3 where "m3 = set_spine_num E (fst mn) (snd mn) 3"
  define m6 where "m6 = set_spine_num E (fst m3) (snd m3) 6"
  have a: "set_spine_nums E (m, n) (ks @ [3, 6]) = m6"
    by (simp add: set_spine_nums_append mn_def m3_def m6_def)
  have "spine_chain E m"
    using assms(2,3) by (simp add: spine_chain_def)
  then have i0: "spine_chain E (fst mn)"
    unfolding mn_def using set_spine_nums_chain [OF assms(1), of "(m, n)" ks] by simp
  have i3: "spine_chain E (fst m3)"
    unfolding m3_def by (rule set_spine_num_chain [OF assms(1) i0])
  have i6: "spine_chain E (fst m6)"
    unfolding m6_def by (rule set_spine_num_chain [OF assms(1) i3])
  have len3: "length (spines (fst m3)) = 3"
    unfolding m3_def using set_spine_num_length [of 3 E "fst mn" "snd mn"] by simp
  then have lt: "int (length (spines (fst m3))) < 6" by simp
  have len: "length (spines (fst m6)) = 6"
    unfolding m6_def using set_spine_num_length [of 6 E "fst m3" "snd m3"] by simp
  have ne: "spines (fst m6) \<noteq> []" using len by auto
  have fixed: "uuid (hip (fst m6)) = uuid (hip (fst mn))"
    "uuid (chest (fst m6)) = uuid (chest (fst mn))"
    by (simp_all add: m6_def m3_def set_spine_num_fixed)
  have chain: "map parent_uuid (spines (fst m6))
      = map Some (uuid (hip (fst m6)) # map uuid (butlast (spines (fst m6))))"
  proof -
    have "chained (uuid (hip (fst m6))) (spines (fst m6))"
      using i6 by (simp add: spine_chain_def)
    then show ?thesis using ne by (rule chained_map)
  qed
  have meta: "get_meta_parent_uuid E (chest (fst m6)) = PStr (uuid (spines (fst m6) ! 5))"
    using set_spine_num_grow_links(2) [OF assms(1) i3 lt, of "snd m3"] ne len
    by (simp add: m6_def [symmetric] last_conv_nth)
  have prox: "module_proxies (fst m6) = [hip (fst m6)] @ spines (fst m6) @ [chest (fst m6)]"
    using set_spine_num_grow_links(1) [OF assms(1) i3 lt, of "snd m3"]
    by (simp add: m6_def [symmetric])
  show ?thesis
    unfolding Let_def a mn_def [symmetric]
    using fixed len chain meta prox by simp
qed

theorem spine_num_three_then_six_witness:
  "generator_ok example_env \<and> spines bare_spine = []
   \<and> accepted_id example_env (uuid (hip bare_spine))
   \<and> (let before = fst (set_spine_nums example_env (bare_spine, 2) [3]);
          after = fst (set_spine_nums example_env (bare_spine, 2) [3, 3, 6])
      in uuid (hip after) = uuid (hip before)
       \<and> uuid (chest after) = uuid (chest before)
       \<and> length (spines after) = 6
       \<and> map parent_uuid (spines after)
           = map Some (uuid (hip after) # map uuid (butlast (spines after)))
       \<and> get_meta_parent_uuid example_env (chest after) = PStr (uuid (spines after ! 5))
       \<and> module_proxies after = [hip after] @ spines after @ [chest after]
       \<and> map name (module_proxies before) = [''hip'', ''spine01'', ''spine02'', ''spine03'', ''chest'']
       \<and> map name (module_proxies after)
           = [''hip'', ''spine01'', ''spine02'', ''spine03'', ''spine04'', ''spine05'',
              ''spine06'', ''chest'']
       \<and> uuid (hip after) = hex_digits 32 0
       \<and> map uuid (spines after) = map (hex_digits 32) [2, 3, 4, 5, 6, 7])"
proof -
  have empty: "spines bare_spine = []"
    by (simp add: bare_spine_def)
  have hip: "uuid (hip bare_spine) = hex_digits 32 0"
    by (simp add: bare_spine_def uuid_set_meta_type uuid_Proxy_init_name)
  have acc: "accepted_id example_env (uuid (hip bare_spine))"
    using example_generator_ok
    by (simp add: hip accepted_id_def generator_ok_def example_env_def)
  have names3: "map name (module_proxies
      (fst (set_spine_nums example_env (bare_spine, 2) [3])))
        = [''hip'', ''spine01'', ''spine02'', ''spine03'', ''chest'']"
    by code_simp
  have names: "map name (module_proxies
      (fst (set_spine_nums example_env (bare_spine, 2) [3, 3, 6])))
        = [''hip'', ''spine01'', ''spine02'', ''spine03'', ''spine04'', ''spine05'',
           ''spine06'', ''chest'']"
    by code_simp
  have ids: "map uuid (spines
      (fst (set_spine_nums example_env (bare_spine, 2) [3, 3, 6])))
        = map (hex_digits 32) [2, 3, 4, 5, 6, 7]"
    by code_simp
  have hip6: "uuid (hip (fst (set_spine_nums example_env (bare_spine, 2) [3, 3, 6])))
      = hex_digits 32 0"
    by code_simp
  show ?thesis
    using spine_num_three_then_six [OF example_generator_ok empty acc, of 2 "[3]"]
      example_generator_ok empty acc names3 names ids hip6
    by (simp add: Let_def)
qed




section \<open>Properties of the build\<close>

lemma run_calls_append:
  "run_calls H h (xs @ ys) =
     (case run_calls H h xs of
        (Some e, t) \<Rightarrow> (Some e, t)
      | (None, t) \<Rightarrow> (case run_calls H (h @ xs) ys of (r, t') \<Rightarrow> (r, xs @ t')))"
proof (induction xs arbitrary: h)
  case Nil
  then show ?case by simp
next
  case (Cons c cs)
  show ?case
  proof (cases "raises H h c")
    case None
    then show ?thesis
      using Cons.IH [of "h @ [c]"]
      by (simp split: prod.splits option.splits)
  next
    case (Some e)
    then show ?thesis by simp
  qed
qed

lemma run_calls_subset: "set (snd (run_calls H h cs)) \<subseteq> set cs"
proof (induction cs arbitrary: h)
  case Nil
  then show ?case by simp
next
  case (Cons c cs)
  show ?case
  proof (cases "raises H h c")
    case None
    then show ?thesis
      using Cons.IH [of "h @ [c]"] by (auto split: prod.splits)
  next
    case (Some e)
    then show ?thesis by simp
  qed
qed

lemma run_calls_returned: "fst (run_calls H h cs) = None \<Longrightarrow> snd (run_calls H h cs) = cs"
proof (induction cs arbitrary: h)
  case Nil
  then show ?case by simp
next
  case (Cons c cs)
  show ?case
  proof (cases "raises H h c")
    case None
    then show ?thesis
      using Cons.IH [of "h @ [c]"] Cons.prems by (auto split: prod.splits)
  next
    case (Some e)
    then show ?thesis using Cons.prems by simp
  qed
qed

text \<open>then_calls: either the first part raised and the trace is its trace, or it
  returned and the second part ran.\<close>

lemma then_calls_cases:
  "then_calls H h (r, t) cs = (r', t') \<Longrightarrow>
     (r \<noteq> None \<and> r' = r \<and> t' = t)
   \<or> (r = None \<and> r' = fst (run_calls H (h @ t) cs) \<and> t' = t @ snd (run_calls H (h @ t) cs))"
  by (auto simp: then_calls_def split: option.splits prod.splits)

lemma collect_proxy_data_trace:
  "snd (collect_proxy_data H h is acc) = snd (run_calls H h (map Module_build_proxy is))
   \<and> (case fst (collect_proxy_data H h is acc) of
        Inl e \<Rightarrow> fst (run_calls H h (map Module_build_proxy is)) = Some e
      | Inr n \<Rightarrow> fst (run_calls H h (map Module_build_proxy is)) = None)"
proof (induction "is" arbitrary: h acc)
  case Nil
  then show ?case by simp
next
  case (Cons i rest)
  show ?case
  proof (cases "raises H h (Module_build_proxy i)")
    case None
    then show ?thesis
      using Cons.IH [of "h @ [Module_build_proxy i]" "acc + built H h i"]
      by (auto split: prod.splits sum.splits)
  next
    case (Some e)
    then show ?thesis by simp
  qed
qed

lemma refresh_bracket_shape:
  "snd (refresh_bracket H h body) = [Refresh_suspend]
   \<or> (\<exists>t'. snd (refresh_bracket H h body) = Refresh_suspend # snd (body (h @ [Refresh_suspend])) @ t'
          \<and> set t' \<subseteq> {Refresh_resume, Refresh})"
proof (cases "raises H h Refresh_suspend")
  case (Some e)
  then show ?thesis by (simp add: refresh_bracket_def)
next
  case None
  obtain r t where b: "body (h @ [Refresh_suspend]) = (r, t)"
    by (cases "body (h @ [Refresh_suspend])")
  obtain r' t' where f: "run_calls H (h @ Refresh_suspend # t) [Refresh_resume, Refresh] = (r', t')"
    by (cases "run_calls H (h @ Refresh_suspend # t) [Refresh_resume, Refresh]")
  have "set t' \<subseteq> {Refresh_resume, Refresh}"
    using run_calls_subset [of H "h @ Refresh_suspend # t" "[Refresh_resume, Refresh]"] f by auto
  then show ?thesis
    using None b f by (cases r') (simp_all add: refresh_bracket_def)
qed

lemma build_rig_body_shape:
  assumes "Module_build_rig_post j \<in> set (snd (build_rig_body H P h))"
  shows "\<exists>post. snd (build_rig_body H P h)
            = rig_prelude @ map Module_build_rig (active_indices P) @ post
         \<and> fst (run_calls H (h @ rig_prelude) (map Module_build_rig (active_indices P))) = None
         \<and> set post \<subseteq> set (map Module_build_rig_post (active_indices P))"
proof -
  let ?B = "map Module_build_rig (active_indices P)"
  let ?Q = "map Module_build_rig_post (active_indices P)"
  obtain r1 t1 where s1: "run_calls H h rig_prelude = (r1, t1)" by (cases "run_calls H h rig_prelude")
  obtain r2 t2 where s2: "then_calls H h (r1, t1) ?B = (r2, t2)"
    by (cases "then_calls H h (r1, t1) ?B")
  obtain r3 t3 where s3: "then_calls H h (r2, t2) ?Q = (r3, t3)"
    by (cases "then_calls H h (r2, t2) ?Q")
  have body: "build_rig_body H P h = (r3, t3)"
    by (simp add: build_rig_body_def rig_prelude_def [symmetric] s1 s2 s3)
  have sub1: "set t1 \<subseteq> set rig_prelude" using run_calls_subset [of H h rig_prelude] s1 by simp
  have np: "Module_build_rig_post j \<notin> set rig_prelude" by (simp add: rig_prelude_def)
  have nb: "Module_build_rig_post j \<notin> set ?B" by auto
  from assms body have in3: "Module_build_rig_post j \<in> set t3" by simp
  from then_calls_cases [OF s3] have r2: "r2 = None"
    and t3: "t3 = t2 @ snd (run_calls H (h @ t2) ?Q)"
  proof -
    have "\<not> (r2 \<noteq> None \<and> r3 = r2 \<and> t3 = t2)"
    proof
      assume a: "r2 \<noteq> None \<and> r3 = r2 \<and> t3 = t2"
      from then_calls_cases [OF s2] a in3 sub1 np nb
        run_calls_subset [of H "h @ t1" ?B]
      show False by auto
    qed
    with then_calls_cases [OF s3] show "r2 = None" "t3 = t2 @ snd (run_calls H (h @ t2) ?Q)"
      by auto
  qed
  from then_calls_cases [OF s2] r2 have r1: "r1 = None"
    and r2': "fst (run_calls H (h @ t1) ?B) = None"
    and t2: "t2 = t1 @ snd (run_calls H (h @ t1) ?B)"
    by auto
  have t1: "t1 = rig_prelude" using run_calls_returned [of H h rig_prelude] s1 r1 by simp
  have t2': "t2 = rig_prelude @ ?B" using t2 t1 run_calls_returned [OF r2'] by simp
  show ?thesis
    using body t3 t2' r2' t1 run_calls_subset [of H "h @ t2" ?Q]
    by (intro exI [of _ "snd (run_calls H (h @ t2) ?Q)"]) simp
qed

lemma after_build_proxy_data_calls: "c \<in> set (proxy_data_calls n) \<Longrightarrow> after_build_proxy c"
  by (auto simp: proxy_data_calls_def)

lemma after_build_parent_proxy_calls: "c \<in> set (parent_proxy_calls P) \<Longrightarrow> after_build_proxy c"
  by (auto simp: parent_proxy_calls_def)

lemma build_proxy_body_shape:
  assumes "c \<in> set (snd (build_proxy_body H P h))" and "after_build_proxy c"
  shows "\<exists>post. snd (build_proxy_body H P h)
            = proxy_prelude @ map Module_build_proxy (active_indices P) @ post
         \<and> fst (run_calls H (h @ proxy_prelude) (map Module_build_proxy (active_indices P))) = None
         \<and> (\<forall>c' \<in> set post. after_build_proxy c')"
proof -
  let ?B = "map Module_build_proxy (active_indices P)"
  obtain r1 t1 where s1: "run_calls H h proxy_prelude = (r1, t1)"
    by (cases "run_calls H h proxy_prelude")
  have sub1: "set t1 \<subseteq> set proxy_prelude" using run_calls_subset [of H h proxy_prelude] s1 by simp
  have np: "c \<notin> set proxy_prelude" using assms(2) by (auto simp: proxy_prelude_def)
  have nb: "c \<notin> set ?B" using assms(2) by auto
  show ?thesis
  proof (cases r1)
    case (Some e)
    then have "snd (build_proxy_body H P h) = t1"
      by (simp add: build_proxy_body_def proxy_prelude_def [symmetric] s1)
    with assms(1) sub1 np show ?thesis by auto
  next
    case None
    then have t1: "t1 = proxy_prelude"
      using run_calls_returned [of H h proxy_prelude] s1 by simp
    obtain r2 t2 where s2: "collect_proxy_data H (h @ t1) (active_indices P) 0 = (r2, t2)"
      by (cases "collect_proxy_data H (h @ t1) (active_indices P) 0")
    have tr: "t2 = snd (run_calls H (h @ t1) ?B)"
      using collect_proxy_data_trace [of H "h @ t1" "active_indices P" 0] s2 by simp
    show ?thesis
    proof (cases r2)
      case (Inl e)
      then have "snd (build_proxy_body H P h) = t1 @ t2"
        using None by (simp add: build_proxy_body_def proxy_prelude_def [symmetric] s1 s2)
      with assms(1) sub1 np nb tr run_calls_subset [of H "h @ t1" ?B] show ?thesis by auto
    next
      case (Inr count)
      then have ret: "fst (run_calls H (h @ t1) ?B) = None"
        using collect_proxy_data_trace [of H "h @ t1" "active_indices P" 0] s2 by simp
      then have t2: "t2 = ?B" using tr run_calls_returned by simp
      obtain r3 t3 where s3: "then_calls H h (None, t1 @ t2) (proxy_data_calls count) = (r3, t3)"
        by (cases "then_calls H h (None, t1 @ t2) (proxy_data_calls count)")
      obtain r4 t4 where s4: "then_calls H h (r3, t3) (parent_proxy_calls P) = (r4, t4)"
        by (cases "then_calls H h (r3, t3) (parent_proxy_calls P)")
      have body: "snd (build_proxy_body H P h) = t4"
        using None Inr by (simp add: build_proxy_body_def proxy_prelude_def [symmetric] s1 s2 s3 s4)
      from then_calls_cases [OF s3]
      have t3: "t3 = (t1 @ t2) @ snd (run_calls H (h @ t1 @ t2) (proxy_data_calls count))"
        by auto
      have a3: "\<forall>c' \<in> set (snd (run_calls H (h @ t1 @ t2) (proxy_data_calls count))).
          after_build_proxy c'"
        using run_calls_subset [of H "h @ t1 @ t2" "proxy_data_calls count"]
          after_build_proxy_data_calls by blast
      have "\<exists>post'. t4 = t3 @ post' \<and> (\<forall>c' \<in> set post'. after_build_proxy c')"
      proof -
        from then_calls_cases [OF s4]
        consider "t4 = t3" | "t4 = t3 @ snd (run_calls H (h @ t3) (parent_proxy_calls P))"
          by auto
        then show ?thesis
        proof cases
          case 1
          then show ?thesis by (intro exI [of _ "[]"]) simp
        next
          case 2
          have "\<forall>c' \<in> set (snd (run_calls H (h @ t3) (parent_proxy_calls P))).
              after_build_proxy c'"
            using run_calls_subset [of H "h @ t3" "parent_proxy_calls P"]
              after_build_parent_proxy_calls by blast
          with 2 show ?thesis by blast
        qed
      qed
      then obtain post' where p4: "t4 = t3 @ post'" "\<forall>c' \<in> set post'. after_build_proxy c'"
        by blast
      show ?thesis
        using body p4 t3 t1 t2 ret a3
        by (intro exI [of _ "snd (run_calls H (h @ t1 @ t2) (proxy_data_calls count)) @ post'"])
           auto
    qed
  qed
qed

lemma consistent_Cons:
  "raises H h c = None \<Longrightarrow> consistent H (h @ [c]) t r \<Longrightarrow> consistent H h (c # t) r"
  by (cases t) simp_all

lemma consistent_run_calls: "consistent H h (snd (run_calls H h cs)) (fst (run_calls H h cs))"
proof (induction cs arbitrary: h)
  case Nil
  then show ?case by simp
next
  case (Cons c cs)
  show ?case
  proof (cases "raises H h c")
    case None
    obtain r t where rt: "run_calls H (h @ [c]) cs = (r, t)" by (cases "run_calls H (h @ [c]) cs")
    have "consistent H (h @ [c]) t r" using Cons.IH [of "h @ [c]"] rt by simp
    then have "consistent H h (c # t) r" using None by (rule consistent_Cons [rotated])
    then show ?thesis using None rt by simp
  next
    case (Some e)
    then show ?thesis by simp
  qed
qed

lemma consistent_append:
  "consistent H h t None \<Longrightarrow> consistent H (h @ t) t' r \<Longrightarrow> consistent H h (t @ t') r"
proof (induction H h t "None :: py_error option" rule: consistent.induct)
  case (1 H h)
  then show ?case by simp
next
  case (2 H h c)
  then show ?case by (simp add: consistent_Cons)
next
  case (3 H h c c' t)
  then show ?case by simp
qed

lemma consistent_then_calls:
  assumes "consistent H h t r"
  shows "consistent H h (snd (then_calls H h (r, t) cs)) (fst (then_calls H h (r, t) cs))"
proof (cases r)
  case None
  obtain r' t' where rt: "run_calls H (h @ t) cs = (r', t')" by (cases "run_calls H (h @ t) cs")
  have "consistent H (h @ t) t' r'" using consistent_run_calls [of H "h @ t" cs] rt by simp
  then have "consistent H h (t @ t') r'" using assms None by (simp add: consistent_append)
  then show ?thesis using None rt by (simp add: then_calls_def)
next
  case (Some e)
  then show ?thesis using assms by (simp add: then_calls_def)
qed

lemma consistent_raise:
  "consistent H h t r \<Longrightarrow> k < length t \<Longrightarrow> raises H (h @ take k t) (t ! k) = Some e
     \<Longrightarrow> r = Some e"
proof (induction H h t r arbitrary: k rule: consistent.induct)
  case (1 H h r)
  then show ?case by simp
next
  case (2 H h c r)
  then show ?case by simp
next
  case (3 H h c c' t r)
  show ?case
  proof (cases k)
    case 0
    with "3.prems" show ?thesis by simp
  next
    case (Suc k')
    with "3.prems" "3.IH" [of k'] show ?thesis by simp
  qed
qed

lemma consistent_build_rig_body:
  "consistent H h (snd (build_rig_body H P h)) (fst (build_rig_body H P h))"
proof -
  obtain r1 t1 where s1: "run_calls H h rig_prelude = (r1, t1)" by (cases "run_calls H h rig_prelude")
  have c1: "consistent H h t1 r1" using consistent_run_calls [of H h rig_prelude] s1 by simp
  obtain r2 t2 where s2: "then_calls H h (r1, t1) (map Module_build_rig (active_indices P)) = (r2, t2)"
    by (cases "then_calls H h (r1, t1) (map Module_build_rig (active_indices P))")
  have c2: "consistent H h t2 r2"
    using consistent_then_calls [OF c1, of "map Module_build_rig (active_indices P)"] s2 by simp
  show ?thesis
    using consistent_then_calls [OF c2, of "map Module_build_rig_post (active_indices P)"]
    by (simp add: build_rig_body_def rig_prelude_def [symmetric] s1 s2)
qed

lemma consistent_collect_proxy_data:
  "consistent H h (snd (collect_proxy_data H h is acc))
     (case fst (collect_proxy_data H h is acc) of Inl e \<Rightarrow> Some e | Inr n \<Rightarrow> None)"
  using collect_proxy_data_trace [of H h "is" acc]
    consistent_run_calls [of H h "map Module_build_proxy is"]
  by (auto split: sum.splits)

lemma consistent_build_proxy_body:
  "consistent H h (snd (build_proxy_body H P h)) (fst (build_proxy_body H P h))"
proof -
  obtain r1 t1 where s1: "run_calls H h proxy_prelude = (r1, t1)"
    by (cases "run_calls H h proxy_prelude")
  have c1: "consistent H h t1 r1" using consistent_run_calls [of H h proxy_prelude] s1 by simp
  show ?thesis
  proof (cases r1)
    case (Some e)
    then show ?thesis
      using c1 by (simp add: build_proxy_body_def proxy_prelude_def [symmetric] s1)
  next
    case None
    obtain r2 t2 where s2: "collect_proxy_data H (h @ t1) (active_indices P) 0 = (r2, t2)"
      by (cases "collect_proxy_data H (h @ t1) (active_indices P) 0")
    have c2: "consistent H (h @ t1) t2 (case r2 of Inl e \<Rightarrow> Some e | Inr n \<Rightarrow> None)"
      using consistent_collect_proxy_data [of H "h @ t1" "active_indices P" 0] s2 by simp
    have c12: "consistent H h (t1 @ t2) (case r2 of Inl e \<Rightarrow> Some e | Inr n \<Rightarrow> None)"
      using c1 c2 None by (simp add: consistent_append)
    show ?thesis
    proof (cases r2)
      case (Inl e)
      then show ?thesis
        using None c12 by (simp add: build_proxy_body_def proxy_prelude_def [symmetric] s1 s2)
    next
      case (Inr count)
      obtain r3 t3 where s3: "then_calls H h (None, t1 @ t2) (proxy_data_calls count) = (r3, t3)"
        by (cases "then_calls H h (None, t1 @ t2) (proxy_data_calls count)")
      have c3: "consistent H h t3 r3"
        using consistent_then_calls [of H h "t1 @ t2" None "proxy_data_calls count"] c12 Inr s3
        by simp
      show ?thesis
        using consistent_then_calls [OF c3, of "parent_proxy_calls P"] None Inr
        by (simp add: build_proxy_body_def proxy_prelude_def [symmetric] s1 s2 s3)
    qed
  qed
qed

lemma refresh_bracket_returns:
  assumes "refresh_returns H"
  shows "refresh_bracket H h body =
           (fst (body (h @ [Refresh_suspend])),
            Refresh_suspend # snd (body (h @ [Refresh_suspend])) @ [Refresh_resume, Refresh])"
  using assms by (simp add: refresh_bracket_def refresh_returns_def split: prod.splits)

lemma build_rig_body_no_refresh: "c \<in> set (snd (build_rig_body H P h)) \<Longrightarrow> \<not> is_refresh c"
proof -
  assume a: "c \<in> set (snd (build_rig_body H P h))"
  obtain r1 t1 where s1: "run_calls H h rig_prelude = (r1, t1)" by (cases "run_calls H h rig_prelude")
  obtain r2 t2 where s2: "then_calls H h (r1, t1) (map Module_build_rig (active_indices P)) = (r2, t2)"
    by (cases "then_calls H h (r1, t1) (map Module_build_rig (active_indices P))")
  obtain r3 t3 where s3: "then_calls H h (r2, t2) (map Module_build_rig_post (active_indices P)) = (r3, t3)"
    by (cases "then_calls H h (r2, t2) (map Module_build_rig_post (active_indices P))")
  have body: "build_rig_body H P h = (r3, t3)"
    by (simp add: build_rig_body_def rig_prelude_def [symmetric] s1 s2 s3)
  have "set t1 \<subseteq> set rig_prelude" using run_calls_subset [of H h rig_prelude] s1 by simp
  moreover have "set t2 \<subseteq> set t1 \<union> set (map Module_build_rig (active_indices P))"
    using then_calls_cases [OF s2] run_calls_subset [of H "h @ t1" "map Module_build_rig (active_indices P)"]
    by auto
  moreover have "set t3 \<subseteq> set t2 \<union> set (map Module_build_rig_post (active_indices P))"
    using then_calls_cases [OF s3] run_calls_subset [of H "h @ t2" "map Module_build_rig_post (active_indices P)"]
    by auto
  ultimately have "c \<in> set rig_prelude \<union> set (map Module_build_rig (active_indices P))
      \<union> set (map Module_build_rig_post (active_indices P))"
    using a body by auto
  then show ?thesis by (auto simp: rig_prelude_def)
qed

lemma build_proxy_body_no_refresh: "c \<in> set (snd (build_proxy_body H P h)) \<Longrightarrow> \<not> is_refresh c"
proof (cases "after_build_proxy c")
  case True
  then show ?thesis by (cases c) simp_all
next
  case False
  assume a: "c \<in> set (snd (build_proxy_body H P h))"
  obtain r1 t1 where s1: "run_calls H h proxy_prelude = (r1, t1)"
    by (cases "run_calls H h proxy_prelude")
  have sub1: "set t1 \<subseteq> set proxy_prelude" using run_calls_subset [of H h proxy_prelude] s1 by simp
  obtain r2 t2 where s2: "collect_proxy_data H (h @ t1) (active_indices P) 0 = (r2, t2)"
    by (cases "collect_proxy_data H (h @ t1) (active_indices P) 0")
  have sub2: "set t2 \<subseteq> set (map Module_build_proxy (active_indices P))"
    using collect_proxy_data_trace [of H "h @ t1" "active_indices P" 0] s2
      run_calls_subset [of H "h @ t1" "map Module_build_proxy (active_indices P)"] by simp
  have "c \<in> set t1 \<union> set t2"
  proof (cases r1)
    case (Some e)
    then show ?thesis
      using a by (simp add: build_proxy_body_def proxy_prelude_def [symmetric] s1)
  next
    case None
    show ?thesis
    proof (cases r2)
      case (Inl e)
      then show ?thesis
        using a None by (simp add: build_proxy_body_def proxy_prelude_def [symmetric] s1 s2)
    next
      case (Inr count)
      obtain r3 t3 where s3: "then_calls H h (None, t1 @ t2) (proxy_data_calls count) = (r3, t3)"
        by (cases "then_calls H h (None, t1 @ t2) (proxy_data_calls count)")
      obtain r4 t4 where s4: "then_calls H h (r3, t3) (parent_proxy_calls P) = (r4, t4)"
        by (cases "then_calls H h (r3, t3) (parent_proxy_calls P)")
      have body: "snd (build_proxy_body H P h) = t4"
        using None Inr by (simp add: build_proxy_body_def proxy_prelude_def [symmetric] s1 s2 s3 s4)
      have "set t3 \<subseteq> set (t1 @ t2) \<union> set (proxy_data_calls count)"
        using then_calls_cases [OF s3] run_calls_subset [of H "h @ t1 @ t2" "proxy_data_calls count"]
        by auto
      moreover have "set t4 \<subseteq> set t3 \<union> set (parent_proxy_calls P)"
        using then_calls_cases [OF s4] run_calls_subset [of H "h @ t3" "parent_proxy_calls P"]
        by auto
      ultimately have "c \<in> set (t1 @ t2) \<union> set (proxy_data_calls count)
          \<union> set (parent_proxy_calls P)"
        using a body by blast
      then show ?thesis
        using False after_build_proxy_data_calls [of c count]
          after_build_parent_proxy_calls [of c P] by auto
    qed
  qed
  with sub1 sub2 show ?thesis by (auto simp: proxy_prelude_def)
qed


text \<open>
  Claim C4. When the trace of \<^verbatim>\<open>RigProject.build_rig\<close> contains a \<^verbatim>\<open>build_rig_post\<close> call,
  the \<^verbatim>\<open>build_rig\<close> calls of all active modules, in list order, come before it in one block,
  each of them returned, no \<^verbatim>\<open>build_rig_post\<close> call precedes the block and no \<^verbatim>\<open>build_rig\<close>
  call follows it. Likewise, when the trace of \<^verbatim>\<open>RigProject.build_proxy\<close> contains a call that
  wires the guides (parenting, visualization lines, attribute dictionaries,
  \<^verbatim>\<open>build_proxy_post\<close>), the \<^verbatim>\<open>build_proxy\<close> calls of all active modules returned before it.
  This holds for every project, hence for every order of the modules and every parent
  identifier, and for every host.
\<close>

theorem build_phases_in_order:
  "(Module_build_rig_post j \<in> set (snd (RigProject_build_rig H P h)) \<longrightarrow>
      (\<exists>pre post.
          snd (RigProject_build_rig H P h)
            = pre @ map Module_build_rig (active_indices P) @ post
        \<and> fst (run_calls H (h @ pre) (map Module_build_rig (active_indices P))) = None
        \<and> (\<forall>i. Module_build_rig_post i \<notin> set pre)
        \<and> (\<forall>i. Module_build_rig i \<notin> set post)))
   \<and> (c \<in> set (snd (RigProject_build_proxy H P h)) \<and> after_build_proxy c \<longrightarrow>
      (\<exists>pre post.
          snd (RigProject_build_proxy H P h)
            = pre @ map Module_build_proxy (active_indices P) @ post
        \<and> fst (run_calls H (h @ pre) (map Module_build_proxy (active_indices P))) = None
        \<and> (\<forall>c' \<in> set pre. \<not> after_build_proxy c')
        \<and> (\<forall>i. Module_build_proxy i \<notin> set post)))"
proof (intro conjI impI)
  let ?t = "snd (RigProject_build_rig H P h)"
  let ?body = "build_rig_body H P (h @ [Refresh_suspend])"
  assume a: "Module_build_rig_post j \<in> set ?t"
  from refresh_bracket_shape [of H h "build_rig_body H P"] a
  obtain t' where t: "?t = Refresh_suspend # snd ?body @ t'"
    and t': "set t' \<subseteq> {Refresh_resume, Refresh}"
    by (auto simp: RigProject_build_rig_def)
  from a t t' have "Module_build_rig_post j \<in> set (snd ?body)" by auto
  from build_rig_body_shape [OF this]
  obtain post where b: "snd ?body = rig_prelude @ map Module_build_rig (active_indices P) @ post"
    and r: "fst (run_calls H ((h @ [Refresh_suspend]) @ rig_prelude)
              (map Module_build_rig (active_indices P))) = None"
    and p: "set post \<subseteq> set (map Module_build_rig_post (active_indices P))"
    by blast
  have "?t = (Refresh_suspend # rig_prelude) @ map Module_build_rig (active_indices P) @ (post @ t')"
    using t b by simp
  moreover have "fst (run_calls H (h @ Refresh_suspend # rig_prelude)
              (map Module_build_rig (active_indices P))) = None"
    using r by simp
  moreover have "\<forall>i. Module_build_rig_post i \<notin> set (Refresh_suspend # rig_prelude)"
    by (simp add: rig_prelude_def)
  moreover have "\<forall>i. Module_build_rig i \<notin> set (post @ t')"
    using p t' by auto
  ultimately show "\<exists>pre post.
          ?t = pre @ map Module_build_rig (active_indices P) @ post
        \<and> fst (run_calls H (h @ pre) (map Module_build_rig (active_indices P))) = None
        \<and> (\<forall>i. Module_build_rig_post i \<notin> set pre)
        \<and> (\<forall>i. Module_build_rig i \<notin> set post)"
    by blast
next
  let ?t = "snd (RigProject_build_proxy H P h)"
  let ?body = "build_proxy_body H P (h @ [Refresh_suspend])"
  assume a: "c \<in> set ?t \<and> after_build_proxy c"
  from refresh_bracket_shape [of H h "build_proxy_body H P"] a
  obtain t' where t: "?t = Refresh_suspend # snd ?body @ t'"
    and t': "set t' \<subseteq> {Refresh_resume, Refresh}"
    by (auto simp: RigProject_build_proxy_def)
  from a t t' have "c \<in> set (snd ?body)" by auto
  from build_proxy_body_shape [OF this] a
  obtain post where b: "snd ?body = proxy_prelude @ map Module_build_proxy (active_indices P) @ post"
    and r: "fst (run_calls H ((h @ [Refresh_suspend]) @ proxy_prelude)
              (map Module_build_proxy (active_indices P))) = None"
    and p: "\<forall>c' \<in> set post. after_build_proxy c'"
    by blast
  have "?t = (Refresh_suspend # proxy_prelude) @ map Module_build_proxy (active_indices P)
                @ (post @ t')"
    using t b by simp
  moreover have "fst (run_calls H (h @ Refresh_suspend # proxy_prelude)
              (map Module_build_proxy (active_indices P))) = None"
    using r by simp
  moreover have "\<forall>c' \<in> set (Refresh_suspend # proxy_prelude). \<not> after_build_proxy c'"
    by (simp add: proxy_prelude_def)
  moreover have "\<forall>i. Module_build_proxy i \<notin> set (post @ t')"
    using p t' by auto
  ultimately show "\<exists>pre post.
          ?t = pre @ map Module_build_proxy (active_indices P) @ post
        \<and> fst (run_calls H (h @ pre) (map Module_build_proxy (active_indices P))) = None
        \<and> (\<forall>c' \<in> set pre. \<not> after_build_proxy c')
        \<and> (\<forall>i. Module_build_proxy i \<notin> set post)"
    by blast
qed

lemma twin_active_indices: "active_indices twin_project = [0, 1]"
proof -
  have "[0..<2] = [0, Suc 0]" by (simp add: upt_rec)
  then show ?thesis
    by (simp add: active_indices_def twin_project_def module_a_def module_b_def
        ModuleGeneric_set_name_def ModuleGeneric_init_def)
qed

lemma quiet_run_calls: "run_calls quiet_host h cs = (None, cs)"
  by (induction cs arbitrary: h) (simp_all add: quiet_host_def)

lemma quiet_collect:
  "\<exists>n. collect_proxy_data quiet_host h is acc = (Inr n, map Module_build_proxy is)"
proof (induction "is" arbitrary: h acc)
  case Nil
  then show ?case by simp
next
  case (Cons i rest)
  have q: "raises quiet_host h (Module_build_proxy i) = None"
    by (simp add: quiet_host_def)
  obtain n where "collect_proxy_data quiet_host (h @ [Module_build_proxy i]) rest
      (acc + built quiet_host h i) = (Inr n, map Module_build_proxy rest)"
    using Cons.IH by blast
  then show ?case by (simp add: q)
qed

lemma quiet_refresh_returns: "refresh_returns quiet_host"
  by (simp add: refresh_returns_def quiet_host_def)

theorem build_phases_in_order_witness:
  "Module_build_rig_post 0 \<in> set (snd (RigProject_build_rig quiet_host twin_project []))
   \<and> Module_build_proxy_post 0 \<in> set (snd (RigProject_build_proxy quiet_host twin_project []))
   \<and> after_build_proxy (Module_build_proxy_post 0)
   \<and> (\<exists>pre post.
          snd (RigProject_build_rig quiet_host twin_project [])
            = pre @ [Module_build_rig 0, Module_build_rig 1] @ post
        \<and> (\<forall>i. Module_build_rig_post i \<notin> set pre)
        \<and> (\<forall>i. Module_build_rig i \<notin> set post))
   \<and> (\<exists>pre post.
          snd (RigProject_build_proxy quiet_host twin_project [])
            = pre @ [Module_build_proxy 0, Module_build_proxy 1] @ post
        \<and> (\<forall>c' \<in> set pre. \<not> after_build_proxy c')
        \<and> (\<forall>i. Module_build_proxy i \<notin> set post))"
proof -
  have rig_body: "build_rig_body quiet_host twin_project [Refresh_suspend]
      = (None, rig_prelude @ [Module_build_rig 0, Module_build_rig 1]
                 @ [Module_build_rig_post 0, Module_build_rig_post 1])"
    by (simp add: build_rig_body_def then_calls_def quiet_run_calls twin_active_indices
        rig_prelude_def del: run_calls.simps)
  have in_rig: "Module_build_rig_post 0 \<in> set (snd (RigProject_build_rig quiet_host twin_project []))"
    by (simp add: RigProject_build_rig_def refresh_bracket_returns [OF quiet_refresh_returns]
        rig_body)
  obtain n where col: "collect_proxy_data quiet_host
      ([Refresh_suspend] @ proxy_prelude) (active_indices twin_project) 0
        = (Inr n, map Module_build_proxy (active_indices twin_project))"
    using quiet_collect by blast
  have "snd (build_proxy_body quiet_host twin_project [Refresh_suspend])
      = proxy_prelude @ [Module_build_proxy 0, Module_build_proxy 1] @ proxy_data_calls n
          @ parent_proxy_calls twin_project"
    using col
    by (simp add: build_proxy_body_def then_calls_def quiet_run_calls twin_active_indices
        proxy_prelude_def del: run_calls.simps)
  moreover have "Module_build_proxy_post 0 \<in> set (parent_proxy_calls twin_project)"
    by (simp add: parent_proxy_calls_def twin_active_indices)
  ultimately have "Module_build_proxy_post 0
      \<in> set (snd (build_proxy_body quiet_host twin_project [Refresh_suspend]))"
    by simp
  then have in_proxy: "Module_build_proxy_post 0
      \<in> set (snd (RigProject_build_proxy quiet_host twin_project []))"
    by (simp add: RigProject_build_proxy_def refresh_bracket_returns [OF quiet_refresh_returns])
  show ?thesis
    using build_phases_in_order
      [of 0 quiet_host twin_project "[]" "Module_build_proxy_post 0"]
      in_rig in_proxy
    by (simp add: twin_active_indices) blast
qed

text \<open>
  Claim C5. Provided the three \<^verbatim>\<open>cmds.refresh\<close> calls of the bracket themselves return,
  \<^verbatim>\<open>RigProject.build_proxy\<close> and \<^verbatim>\<open>RigProject.build_rig\<close> first suspend the refresh, run
  the body, and end with the calls that resume the refresh and redraw, whether or not the body
  raised; the body makes no refresh call; and the result of the method is the result of the
  body, so that an exception raised by any call of the body is the exception the caller gets.
\<close>

theorem refresh_bracket_guaranteed:
  assumes "refresh_returns H"
  shows "RigProject_build_proxy H P h
           = (fst (build_proxy_body H P (h @ [Refresh_suspend])),
              Refresh_suspend # snd (build_proxy_body H P (h @ [Refresh_suspend]))
                @ [Refresh_resume, Refresh])
       \<and> (\<forall>c \<in> set (snd (build_proxy_body H P (h @ [Refresh_suspend]))). \<not> is_refresh c)
       \<and> (\<forall>k e. k < length (snd (build_proxy_body H P (h @ [Refresh_suspend])))
             \<and> raises H (h @ [Refresh_suspend]
                            @ take k (snd (build_proxy_body H P (h @ [Refresh_suspend]))))
                  (snd (build_proxy_body H P (h @ [Refresh_suspend])) ! k) = Some e
             \<longrightarrow> fst (RigProject_build_proxy H P h) = Some e)
       \<and> RigProject_build_rig H P h
           = (fst (build_rig_body H P (h @ [Refresh_suspend])),
              Refresh_suspend # snd (build_rig_body H P (h @ [Refresh_suspend]))
                @ [Refresh_resume, Refresh])
       \<and> (\<forall>c \<in> set (snd (build_rig_body H P (h @ [Refresh_suspend]))). \<not> is_refresh c)
       \<and> (\<forall>k e. k < length (snd (build_rig_body H P (h @ [Refresh_suspend])))
             \<and> raises H (h @ [Refresh_suspend]
                            @ take k (snd (build_rig_body H P (h @ [Refresh_suspend]))))
                  (snd (build_rig_body H P (h @ [Refresh_suspend])) ! k) = Some e
             \<longrightarrow> fst (RigProject_build_rig H P h) = Some e)"
proof -
  have p: "RigProject_build_proxy H P h
           = (fst (build_proxy_body H P (h @ [Refresh_suspend])),
              Refresh_suspend # snd (build_proxy_body H P (h @ [Refresh_suspend]))
                @ [Refresh_resume, Refresh])"
    unfolding RigProject_build_proxy_def by (rule refresh_bracket_returns [OF assms])
  have r: "RigProject_build_rig H P h
           = (fst (build_rig_body H P (h @ [Refresh_suspend])),
              Refresh_suspend # snd (build_rig_body H P (h @ [Refresh_suspend]))
                @ [Refresh_resume, Refresh])"
    unfolding RigProject_build_rig_def by (rule refresh_bracket_returns [OF assms])
  have pe: "fst (RigProject_build_proxy H P h) = Some e"
    if "k < length (snd (build_proxy_body H P (h @ [Refresh_suspend])))"
      and "raises H (h @ [Refresh_suspend]
                       @ take k (snd (build_proxy_body H P (h @ [Refresh_suspend]))))
             (snd (build_proxy_body H P (h @ [Refresh_suspend])) ! k) = Some e" for k e
    using consistent_raise [OF consistent_build_proxy_body, of k H P "h @ [Refresh_suspend]" e] that
    by (simp add: p)
  have re: "fst (RigProject_build_rig H P h) = Some e"
    if "k < length (snd (build_rig_body H P (h @ [Refresh_suspend])))"
      and "raises H (h @ [Refresh_suspend]
                       @ take k (snd (build_rig_body H P (h @ [Refresh_suspend]))))
             (snd (build_rig_body H P (h @ [Refresh_suspend])) ! k) = Some e" for k e
    using consistent_raise [OF consistent_build_rig_body, of k H P "h @ [Refresh_suspend]" e] that
    by (simp add: r)
  show ?thesis
    using p r pe re build_proxy_body_no_refresh build_rig_body_no_refresh by blast
qed

theorem refresh_bracket_guaranteed_witness:
  "refresh_returns failing_host
   \<and> RigProject_build_rig failing_host twin_project []
       = (Some (HostError ''joint''),
          [Refresh_suspend, Create_control_root_curve, Group_setup, Node_setup, Add_attr_setup,
           Set_attr_setup, Parent_setup, Module_build_rig 0, Module_build_rig 1,
           Refresh_resume, Refresh])"
proof -
  have ok: "refresh_returns failing_host"
    by (simp add: refresh_returns_def failing_host_def)
  have body: "build_rig_body failing_host twin_project [Refresh_suspend]
      = (Some (HostError ''joint''),
         [Create_control_root_curve, Group_setup, Node_setup, Add_attr_setup,
           Set_attr_setup, Parent_setup, Module_build_rig 0, Module_build_rig 1])"
    by (simp add: build_rig_body_def then_calls_def twin_active_indices failing_host_def)
  show ?thesis
    using refresh_bracket_guaranteed [OF ok, of twin_project "[]"]
    by (simp add: ok body)
qed

end
